theory Spec2Isabelle
  imports Main
begin

section \<open>The script engine wrapper of Engine/Script/ScriptEngine.cpp\<close>

text \<open>
  The class \<open>ScriptEngine\<close> owns an AngelScript engine, one context for immediate
  execution and a vector of contexts indexed by script nesting level. Its member functions
  are embedded as functions on a record of the members and a record \<open>world\<close> of what lies
  outside the object: the script contexts, the log, the highest nesting level reached, and
  the sequence of calls made to the AngelScript library.

  The library itself is declared in \<open>angelscript.h\<close>, outside this source. The results the
  code inspects (a null engine, a null module, the return codes of \<open>CompileFunction\<close>,
  \<open>Prepare\<close> and \<open>Execute\<close>) are taken from a parameter \<open>script_runtime\<close>, so that every
  theorem holds for whatever the library answers; so is the result of \<open>CreateContext\<close>,
  which the code stores without a test. A pointer is an \<open>option\<close>, \<open>None\<close> the null pointer; dereferencing it, or indexing the vector out of range, is a \<open>fault\<close>.
\<close>

subsection \<open>Data\<close>

datatype fault = Exception string | NullPointer | OutOfRange

datatype ScriptLogMode = LOGMODE_IMMEDIATE | LOGMODE_RETAINED

datatype asEMsgType = asMSGTYPE_ERROR | asMSGTYPE_WARNING | asMSGTYPE_INFORMATION

record asSMessageInfo =
  msg_section :: string
  msg_row :: int
  msg_col :: int
  msg_type :: asEMsgType
  msg_message :: string

datatype log_level = LOG_DEBUG | LOG_INFO | LOG_WARNING | LOG_ERROR

datatype asEGCFlags =
  asGC_FULL_CYCLE | asGC_ONE_STEP | asGC_DESTROY_GARBAGE | asGC_DETECT_GARBAGE

datatype asEEngineProp = asEP_USE_CHARACTER_LITERALS | asEP_ALLOW_UNSAFE_REFERENCES

datatype asEGMFlags = asGM_ALWAYS_CREATE

text \<open>
  The states a context reports, with the values \<open>angelscript.h\<close> gives them.
  \<open>asIScriptContext::Execute\<close> returns a negative code when the call itself is in error
  and otherwise the state the execution ended in; a script that raises an exception ends
  in \<open>asEXECUTION_EXCEPTION\<close>.
\<close>

datatype asEContextState =
    asEXECUTION_FINISHED | asEXECUTION_SUSPENDED | asEXECUTION_ABORTED
  | asEXECUTION_EXCEPTION | asEXECUTION_PREPARED | asEXECUTION_UNINITIALIZED
  | asEXECUTION_ACTIVE | asEXECUTION_ERROR

fun asEContextState_value :: "asEContextState \<Rightarrow> int" where
  "asEContextState_value asEXECUTION_FINISHED = 0"
| "asEContextState_value asEXECUTION_SUSPENDED = 1"
| "asEContextState_value asEXECUTION_ABORTED = 2"
| "asEContextState_value asEXECUTION_EXCEPTION = 3"
| "asEContextState_value asEXECUTION_PREPARED = 4"
| "asEContextState_value asEXECUTION_UNINITIALIZED = 5"
| "asEContextState_value asEXECUTION_ACTIVE = 6"
| "asEContextState_value asEXECUTION_ERROR = 7"

type_synonym ctx_id = nat

text \<open>The calls made to the AngelScript library, in the order they are made.\<close>

datatype api_call =
    Call_asCreateScriptEngine
  | Call_SetUserData
  | Call_SetEngineProperty asEEngineProp bool
  | Call_SetMessageCallback
  | Call_registerArray
  | Call_registerStdString
  | Call_CreateContext "ctx_id option"
  | Call_GetModule string asEGMFlags
  | Call_CompileFunction string string
  | Call_Prepare ctx_id
  | Call_Execute ctx_id
  | Call_FunctionRelease
  | Call_Unprepare ctx_id
  | Call_GarbageCollect "asEGCFlags set"
  | Call_ContextRelease ctx_id
  | Call_EngineRelease

text \<open>
  What the library answers. \<open>rt_asCreateScriptEngine\<close> and \<open>rt_GetModule\<close> say whether
  the pointer returned is non-null; so does \<open>rt_CreateContext\<close>, for the \<open>k\<close>-th call of
  \<open>CreateContext\<close> (counting from 0); \<open>rt_CompileFunction\<close> takes the section name and the
  code and gives the return code and the diagnostics the compiler passes to the message
  callback; \<open>rt_Prepare\<close> and \<open>rt_Execute\<close> give the return code for the function compiled
  from the given code.
\<close>

record script_runtime =
  rt_asCreateScriptEngine :: bool
  rt_CreateContext :: "nat \<Rightarrow> bool"
  rt_GetModule :: "string \<Rightarrow> bool"
  rt_CompileFunction :: "string \<Rightarrow> string \<Rightarrow> int \<times> asSMessageInfo list"
  rt_Prepare :: "string \<Rightarrow> int"
  rt_Execute :: "string \<Rightarrow> int"

text \<open>
  \<open>w_prepared\<close> holds one entry for each context created so far (a context is named by
  its index): whether a function is prepared on it. \<open>w_highest\<close> is what
  \<open>getHighestScriptNestingLevel()\<close> returns.
\<close>

record world =
  w_prepared :: "bool list"
  w_calls :: "api_call list"
  w_log :: "(log_level \<times> string) list"
  w_highest :: nat

record ScriptEngine =
  mAngelScriptEngine :: "unit option"
  mImmediateContext :: "ctx_id option"
  mScriptFileContexts :: "ctx_id option list"
  mLogMode :: ScriptLogMode
  mLogMessages :: string

subsection \<open>The library and the log\<close>

definition api :: "api_call \<Rightarrow> world \<Rightarrow> world" where
  "api c w = w\<lparr>w_calls := w_calls w @ [c]\<rparr>"

definition write_log :: "log_level \<Rightarrow> string \<Rightarrow> world \<Rightarrow> world" where
  "write_log l m w = w\<lparr>w_log := w_log w @ [(l, m)]\<rparr>"

abbreviation LOGDEBUG :: "string \<Rightarrow> world \<Rightarrow> world" where
  "LOGDEBUG \<equiv> write_log LOG_DEBUG"

abbreviation LOGINFO :: "string \<Rightarrow> world \<Rightarrow> world" where
  "LOGINFO \<equiv> write_log LOG_INFO"

abbreviation LOGWARNING :: "string \<Rightarrow> world \<Rightarrow> world" where
  "LOGWARNING \<equiv> write_log LOG_WARNING"

abbreviation LOGERROR :: "string \<Rightarrow> world \<Rightarrow> world" where
  "LOGERROR \<equiv> write_log LOG_ERROR"

text \<open>
  \<open>requests w\<close> counts the calls of \<open>CreateContext\<close> made so far. \<open>CreateContext\<close> returns
  what the library answers to this call: a pointer to a new context, on which nothing is
  prepared, or the null pointer, in which case no context comes into being.
\<close>

fun is_CreateContext :: "api_call \<Rightarrow> bool" where
  "is_CreateContext (Call_CreateContext p) = True"
| "is_CreateContext other = False"

definition requests :: "world \<Rightarrow> nat" where
  "requests w = length (filter is_CreateContext (w_calls w))"

definition CreateContext :: "script_runtime \<Rightarrow> world \<Rightarrow> ctx_id option \<times> world" where
  "CreateContext rt w =
     (if rt_CreateContext rt (requests w)
      then (let c = length (w_prepared w)
            in (Some c, api (Call_CreateContext (Some c))
                          (w\<lparr>w_prepared := w_prepared w @ [False]\<rparr>)))
      else (None, api (Call_CreateContext None) w))"

text \<open>
  \<open>Prepare\<close> with a return code \<open>r\<close>: the function is prepared on the context when the
  call succeeds.
\<close>

definition Prepare :: "ctx_id \<Rightarrow> int \<Rightarrow> world \<Rightarrow> world" where
  "Prepare c r w =
     api (Call_Prepare c)
       (if r < 0 then w else w\<lparr>w_prepared := (w_prepared w)[c := True]\<rparr>)"

definition Unprepare :: "ctx_id \<Rightarrow> world \<Rightarrow> world" where
  "Unprepare c w = api (Call_Unprepare c) (w\<lparr>w_prepared := (w_prepared w)[c := False]\<rparr>)"

definition is_unprepared :: "world \<Rightarrow> ctx_id option \<Rightarrow> bool" where
  "is_unprepared w p =
     (case p of None \<Rightarrow> False | Some c \<Rightarrow> c < length (w_prepared w) \<and> \<not> w_prepared w ! c)"

text \<open>
  Modelled from the spec: \<open>toString\<close> is declared in \<open>StringUtils.h\<close>, outside this source;
  the spec shows the row and the column as numbers, rendered here in decimal.
\<close>

definition digit_char :: "nat \<Rightarrow> char" where
  "digit_char d = ''0123456789'' ! d"

function decimal :: "nat \<Rightarrow> string" where
  "decimal n = (if n < 10 then [digit_char n] else decimal (n div 10) @ [digit_char (n mod 10)])"
  by pat_completeness auto
termination
  by (relation "measure id") auto

definition toString :: "int \<Rightarrow> string" where
  "toString i = (if i < 0 then CHR ''-'' # decimal (nat (- i)) else decimal (nat i))"

subsection \<open>Construction and destruction\<close>

text \<open>
  The loop of the constructor, \<open>for (i = 0; i < MAX_SCRIPT_NESTING_LEVEL; ++i)\<close>, pushing
  a new context each time. \<open>MAX_SCRIPT_NESTING_LEVEL\<close> is declared in \<open>ScriptEngine.h\<close>,
  outside this source: it is the parameter \<open>max_level\<close>.
\<close>

function ctor_loop ::
  "script_runtime \<Rightarrow> nat \<Rightarrow> nat \<Rightarrow> ctx_id option list \<Rightarrow> world \<Rightarrow>
     ctx_id option list \<times> world" where
  "ctor_loop rt i max_level cs w =
     (if i < max_level
      then (case CreateContext rt w of (c, w') \<Rightarrow> ctor_loop rt (Suc i) max_level (cs @ [c]) w')
      else (cs, w))"
  by pat_completeness auto
termination
  by (relation "measure (\<lambda>(rt, i, max_level, cs, w). max_level - i)") auto

text \<open>
  The constructor. The initialiser list sets the two pointers only, so \<open>mLogMode\<close> starts
  with whatever value the memory holds: the parameter \<open>mode0\<close>. \<open>PROFILE\<close> opens a
  profiling block and has no effect on the members.
\<close>

definition ScriptEngine_ctor ::
  "nat \<Rightarrow> ScriptLogMode \<Rightarrow> script_runtime \<Rightarrow> world \<Rightarrow> fault + (ScriptEngine \<times> world)" where
  "ScriptEngine_ctor max_level mode0 rt w =
     (let w0 = api Call_asCreateScriptEngine w
      in if \<not> rt_asCreateScriptEngine rt
         then Inl (Exception ''Could not create AngelScript engine'')
         else
           (let w1 = LOGINFO ''Script engine created'' w0;
                w2 = api Call_SetUserData w1;
                w3 = api (Call_SetEngineProperty asEP_USE_CHARACTER_LITERALS True) w2;
                w4 = api (Call_SetEngineProperty asEP_ALLOW_UNSAFE_REFERENCES True) w3;
                w5 = api Call_SetMessageCallback w4;
                w6 = LOGDEBUG ''Registering array and string types'' w5;
                w7 = api Call_registerArray w6;
                w8 = api Call_registerStdString w7
            in case CreateContext rt w8 of (imm, w9) \<Rightarrow>
                 (case ctor_loop rt 0 max_level [] w9 of (cs, w10) \<Rightarrow>
                    Inr (\<lparr>mAngelScriptEngine = Some (),
                          mImmediateContext = imm,
                          mScriptFileContexts = cs,
                          mLogMode = mode0,
                          mLogMessages = []\<rparr>, w10))))"

function dtor_loop :: "nat \<Rightarrow> nat \<Rightarrow> ctx_id option list \<Rightarrow> world \<Rightarrow> fault + world" where
  "dtor_loop i max_level cs w =
     (if i < max_level
      then (if length cs \<le> i then Inl OutOfRange
            else dtor_loop (Suc i) max_level cs
                   (case cs ! i of None \<Rightarrow> w | Some c \<Rightarrow> api (Call_ContextRelease c) w))
      else Inr w)"
  by pat_completeness auto
termination
  by (relation "measure (\<lambda>(i, max_level, cs, w). max_level - i)") auto

definition ScriptEngine_dtor ::
  "nat \<Rightarrow> ScriptEngine \<Rightarrow> world \<Rightarrow> fault + (ScriptEngine \<times> world)" where
  "ScriptEngine_dtor max_level s w =
     (let w1 = LOGINFO ''Script engine shut down'' w;
          (s1, w2) = (case mImmediateContext s of
                        Some c \<Rightarrow> (s\<lparr>mImmediateContext := None\<rparr>, api (Call_ContextRelease c) w1)
                      | None \<Rightarrow> (s, w1))
      in case dtor_loop 0 max_level (mScriptFileContexts s1) w2 of
           Inl f \<Rightarrow> Inl f
         | Inr w3 \<Rightarrow>
             (let s2 = s1\<lparr>mScriptFileContexts := []\<rparr>
              in case mAngelScriptEngine s2 of
                   Some e \<Rightarrow> Inr (s2\<lparr>mAngelScriptEngine := None\<rparr>, api Call_EngineRelease w3)
                 | None \<Rightarrow> Inr (s2, w3)))"

subsection \<open>Diagnostics\<close>

definition setLogMode :: "ScriptLogMode \<Rightarrow> ScriptEngine \<Rightarrow> ScriptEngine" where
  "setLogMode mode s = s\<lparr>mLogMode := mode\<rparr>"

definition clearLogMessages :: "ScriptEngine \<Rightarrow> ScriptEngine" where
  "clearLogMessages s = s\<lparr>mLogMessages := []\<rparr>"

definition logMessage :: "asSMessageInfo \<Rightarrow> ScriptEngine \<Rightarrow> world \<Rightarrow> ScriptEngine \<times> world" where
  "logMessage msg s w =
     (let message = msg_section msg @ '' ('' @ toString (msg_row msg) @ '','' @
                    toString (msg_col msg) @ '') '' @ msg_message msg
      in if mLogMode s = LOGMODE_IMMEDIATE
         then (case msg_type msg of
                 asMSGTYPE_ERROR \<Rightarrow> (s, LOGERROR message w)
               | asMSGTYPE_WARNING \<Rightarrow> (s, LOGWARNING message w)
               | _ \<Rightarrow> (s, LOGINFO message w))
         else if msg_type msg = asMSGTYPE_ERROR \<or> msg_type msg = asMSGTYPE_WARNING
              then (s\<lparr>mLogMessages := mLogMessages s @ message @ [CHR 0x0A]\<rparr>, w)
              else (s, w))"

text \<open>The callback installed in the library passes each message to \<open>logMessage\<close>.\<close>

definition messageCallback :: "asSMessageInfo \<Rightarrow> ScriptEngine \<Rightarrow> world \<Rightarrow> ScriptEngine \<times> world" where
  "messageCallback msg engine w = logMessage msg engine w"

text \<open>The library reporting a sequence of messages, one call of the callback each.\<close>

primrec report :: "asSMessageInfo list \<Rightarrow> ScriptEngine \<Rightarrow> world \<Rightarrow> ScriptEngine \<times> world" where
  "report [] s w = (s, w)"
| "report (m # ms) s w = (case messageCallback m s w of (s', w') \<Rightarrow> report ms s' w')"

subsection \<open>Immediate execution\<close>

definition wrappedLine :: "string \<Rightarrow> string" where
  "wrappedLine line = ''void f(){'' @ [CHR 0x0A] @ line @ '';'' @ [CHR 0x0A] @ ''}''"

definition execute ::
  "script_runtime \<Rightarrow> string \<Rightarrow> ScriptEngine \<Rightarrow> world \<Rightarrow> fault + (bool \<times> ScriptEngine \<times> world)" where
  "execute rt line s w =
     (case mAngelScriptEngine s of
        None \<Rightarrow> Inl NullPointer
      | Some e \<Rightarrow>
          (let w1 = api (Call_GetModule ''ExecuteImmediate'' asGM_ALWAYS_CREATE) w
           in if \<not> rt_GetModule rt ''ExecuteImmediate''
              then Inr (False, s, w1)
              else
                (case rt_CompileFunction rt line (wrappedLine line) of (r, msgs) \<Rightarrow>
                   (case report msgs s (api (Call_CompileFunction line (wrappedLine line)) w1) of
                      (s2, w2) \<Rightarrow>
                        if r < 0 then Inr (False, s2, w2)
                        else
                          (case mImmediateContext s2 of
                             None \<Rightarrow> Inl NullPointer
                           | Some c \<Rightarrow>
                               (let p = rt_Prepare rt (wrappedLine line);
                                    w3 = Prepare c p w2
                                in if p < 0
                                   then Inr (False, s2, api Call_FunctionRelease w3)
                                   else
                                     (let success = (rt_Execute rt (wrappedLine line) \<ge> 0);
                                          w4 = api (Call_Execute c) w3
                                      in Inr (success, s2, api Call_FunctionRelease w4))))))))"

subsection \<open>Garbage collection\<close>

function unprepare_loop :: "nat \<Rightarrow> nat \<Rightarrow> ctx_id option list \<Rightarrow> world \<Rightarrow> fault + world" where
  "unprepare_loop i highest cs w =
     (if i < highest
      then (if length cs \<le> i then Inl OutOfRange
            else (case cs ! i of
                    None \<Rightarrow> Inl NullPointer
                  | Some c \<Rightarrow> unprepare_loop (Suc i) highest cs (Unprepare c w)))
      else Inr w)"
  by pat_completeness auto
termination
  by (relation "measure (\<lambda>(i, highest, cs, w). highest - i)") auto

definition garbageCollect :: "bool \<Rightarrow> ScriptEngine \<Rightarrow> world \<Rightarrow> fault + (ScriptEngine \<times> world)" where
  "garbageCollect fullCycle s w =
     (case mImmediateContext s of
        None \<Rightarrow> Inl NullPointer
      | Some c \<Rightarrow>
          (let w1 = Unprepare c w;
               highest = w_highest w1
           in case unprepare_loop 0 highest (mScriptFileContexts s) w1 of
                Inl f \<Rightarrow> Inl f
              | Inr w2 \<Rightarrow>
                  (case mAngelScriptEngine s of
                     None \<Rightarrow> Inl NullPointer
                   | Some e \<Rightarrow>
                       if fullCycle
                       then Inr (s, api (Call_GarbageCollect {asGC_FULL_CYCLE}) w2)
                       else Inr (s, api (Call_GarbageCollect {asGC_FULL_CYCLE, asGC_DESTROY_GARBAGE})
                                      (api (Call_GarbageCollect {asGC_ONE_STEP, asGC_DETECT_GARBAGE})
                                         w2)))))"

subsection \<open>Context lookup\<close>

definition getScriptFileContext :: "nat \<Rightarrow> ScriptEngine \<Rightarrow> ctx_id option" where
  "getScriptFileContext nestingLevel s =
     (if nestingLevel \<ge> length (mScriptFileContexts s) then None
      else mScriptFileContexts s ! nestingLevel)"

subsection \<open>Constructed engines\<close>

text \<open>
  A pointer is valid in a world when it is not null and names a context created there.
  \<open>engine_ok\<close> describes the members of an engine whose constructor has returned: the
  engine and every context pointer are valid. The constructor establishes it when the
  library returns a context at each call (\<open>ctor_engine_ok\<close>) and the member functions keep it (\<open>execute_engine_ok\<close>,
  \<open>garbageCollect_engine_ok\<close>).
\<close>

definition valid_ctx :: "world \<Rightarrow> ctx_id option \<Rightarrow> bool" where
  "valid_ctx w p = (case p of None \<Rightarrow> False | Some c \<Rightarrow> c < length (w_prepared w))"

definition engine_ok :: "ScriptEngine \<Rightarrow> world \<Rightarrow> bool" where
  "engine_ok s w =
     (mAngelScriptEngine s \<noteq> None \<and> valid_ctx w (mImmediateContext s) \<and>
      list_all (valid_ctx w) (mScriptFileContexts s))"

subsection \<open>What the constructor's calls of \<open>CreateContext\<close> return\<close>

text \<open>
  \<open>created rt k c n\<close> lists what \<open>n\<close> successive calls of \<open>CreateContext\<close> return, the first
  of them being call number \<open>k\<close>, made when \<open>c\<close> contexts exist; \<open>successes\<close> counts the
  non-null pointers among them.
\<close>

fun created :: "script_runtime \<Rightarrow> nat \<Rightarrow> nat \<Rightarrow> nat \<Rightarrow> ctx_id option list" where
  "created rt k c 0 = []"
| "created rt k c (Suc n) =
     (if rt_CreateContext rt k then Some c # created rt (Suc k) (Suc c) n
      else None # created rt (Suc k) c n)"

definition successes :: "ctx_id option list \<Rightarrow> nat" where
  "successes ps = length (filter (\<lambda>p. p \<noteq> None) ps)"

subsection \<open>Concrete runtimes and engines\<close>

text \<open>
  A world in which no context exists yet; a runtime on which every call succeeds; one
  whose scripts end in a script exception; one whose compiler rejects the code with a
  note and an error; one that cannot create the engine; one whose third call of
  \<open>CreateContext\<close> returns null; one that creates no context at all. \<open>constructed\<close>,
  \<open>short_pool\<close> and \<open>unusable\<close> are what the constructor builds with two nesting levels on
  the first and on the last two of them.
\<close>

definition empty_world :: world where
  "empty_world = \<lparr>w_prepared = [], w_calls = [], w_log = [], w_highest = 0\<rparr>"

definition ok_runtime :: script_runtime where
  "ok_runtime =
     \<lparr>rt_asCreateScriptEngine = True,
      rt_CreateContext = (\<lambda>k. True),
      rt_GetModule = (\<lambda>name. True),
      rt_CompileFunction = (\<lambda>name code. (0, [])),
      rt_Prepare = (\<lambda>code. 0),
      rt_Execute = (\<lambda>code. asEContextState_value asEXECUTION_FINISHED)\<rparr>"

definition raising_runtime :: script_runtime where
  "raising_runtime =
     ok_runtime\<lparr>rt_Execute := (\<lambda>code. asEContextState_value asEXECUTION_EXCEPTION)\<rparr>"

definition syntax_error :: asSMessageInfo where
  "syntax_error =
     \<lparr>msg_section = ''f('', msg_row = 2, msg_col = 4, msg_type = asMSGTYPE_ERROR,
      msg_message = ''Expected expression value''\<rparr>"

definition note_message :: asSMessageInfo where
  "note_message =
     \<lparr>msg_section = ''f('', msg_row = 1, msg_col = 1, msg_type = asMSGTYPE_INFORMATION,
      msg_message = ''Compiling void f()''\<rparr>"

definition rejecting_runtime :: script_runtime where
  "rejecting_runtime =
     ok_runtime\<lparr>rt_CompileFunction := (\<lambda>name code. (- 1, [note_message, syntax_error]))\<rparr>"

definition no_runtime :: script_runtime where
  "no_runtime = ok_runtime\<lparr>rt_asCreateScriptEngine := False\<rparr>"

definition short_runtime :: script_runtime where
  "short_runtime = ok_runtime\<lparr>rt_CreateContext := (\<lambda>k. k \<noteq> 2)\<rparr>"

definition contextless_runtime :: script_runtime where
  "contextless_runtime = ok_runtime\<lparr>rt_CreateContext := (\<lambda>k. False)\<rparr>"

definition short_pool :: "ScriptEngine \<times> world" where
  "short_pool = projr (ScriptEngine_ctor 2 LOGMODE_RETAINED short_runtime empty_world)"

definition unusable :: "ScriptEngine \<times> world" where
  "unusable = projr (ScriptEngine_ctor 2 LOGMODE_RETAINED contextless_runtime empty_world)"

definition constructed :: "ScriptEngine \<times> world" where
  "constructed = projr (ScriptEngine_ctor 2 LOGMODE_RETAINED ok_runtime empty_world)"

definition nested_world :: world where
  "nested_world = (snd constructed)\<lparr>w_highest := 1\<rparr>"

definition retained_engine :: ScriptEngine where
  "retained_engine = (fst constructed)\<lparr>mLogMessages := ''old (1,1) stale'' @ [CHR 0x0A]\<rparr>"

section \<open>Properties\<close>

declare ctor_loop.simps [simp del] dtor_loop.simps [simp del]
  unprepare_loop.simps [simp del] decimal.simps [simp del]

subsection \<open>The library calls\<close>

lemma api_frame:
  "w_prepared (api a w) = w_prepared w" "w_highest (api a w) = w_highest w"
  "w_log (api a w) = w_log w"
  by (simp_all add: api_def)

lemma Prepare_frame:
  "length (w_prepared (Prepare c r w)) = length (w_prepared w)"
  "w_highest (Prepare c r w) = w_highest w"
  by (simp_all add: Prepare_def api_def)

lemma fold_api_calls: "w_calls (fold api cs w) = w_calls w @ cs"
  by (induction cs arbitrary: w) (simp_all add: api_def)

lemma fold_api_frame:
  "w_prepared (fold api cs w) = w_prepared w" "w_highest (fold api cs w) = w_highest w"
  "w_log (fold api cs w) = w_log w"
  by (induction cs arbitrary: w) (simp_all add: api_def)

lemma nth_clear:
  "j < length xs \<Longrightarrow> xs[a := False] ! j = (j \<noteq> a \<and> xs ! j)"
  by (cases "a = j") simp_all

lemma fold_Unprepare_calls:
  "w_calls (fold Unprepare cs w) = w_calls w @ map Call_Unprepare cs"
  by (induction cs arbitrary: w) (simp_all add: Unprepare_def api_def)

lemma fold_Unprepare_frame:
  "w_log (fold Unprepare cs w) = w_log w" "w_highest (fold Unprepare cs w) = w_highest w"
  "length (w_prepared (fold Unprepare cs w)) = length (w_prepared w)"
  by (induction cs arbitrary: w) (simp_all add: Unprepare_def api_def)

lemma fold_Unprepare_prepared:
  "j < length (w_prepared w) \<Longrightarrow>
   w_prepared (fold Unprepare cs w) ! j = (j \<notin> set cs \<and> w_prepared w ! j)"
  by (induction cs arbitrary: w) (auto simp add: Unprepare_def api_def nth_clear)

lemma valid_ctx_cong:
  "length (w_prepared w') = length (w_prepared w) \<Longrightarrow> valid_ctx w' = valid_ctx w"
  by (rule ext) (simp add: valid_ctx_def split: option.splits)

lemma engine_ok_cong:
  "length (w_prepared w') = length (w_prepared w) \<Longrightarrow> engine_ok s w' = engine_ok s w"
  by (simp add: engine_ok_def valid_ctx_cong [of w' w])

lemma pool_as_ids:
  "list_all (valid_ctx w) cs \<Longrightarrow> cs = map Some (map the cs)"
  by (induction cs) (auto simp add: valid_ctx_def split: option.splits)

subsection \<open>The loops in closed form\<close>

lemma requests_api:
  "requests (api a w) = requests w + (if is_CreateContext a then 1 else 0)"
  by (simp add: requests_def api_def)

lemma length_created: "length (created rt k c n) = n"
  by (induction n arbitrary: k c) simp_all

lemma created_nth:
  "j < n \<Longrightarrow> (created rt k c n ! j \<noteq> None) = rt_CreateContext rt (k + j)"
proof (induction n arbitrary: k c j)
  case 0
  then show ?case by simp
next
  case (Suc n)
  show ?case
  proof (cases j)
    case 0
    then show ?thesis by simp
  next
    case (Suc i)
    with Suc.prems have "i < n" by simp
    from Suc.IH [OF this] Suc show ?thesis by simp
  qed
qed

lemma created_bounds:
  "Some x \<in> set (created rt k c n) \<Longrightarrow> c \<le> x \<and> x < c + successes (created rt k c n)"
proof (induction n arbitrary: k c)
  case 0
  then show ?case by simp
next
  case (Suc n)
  show ?case
  proof (cases "rt_CreateContext rt k")
    case True
    with Suc.prems have "x = c \<or> Some x \<in> set (created rt (Suc k) (Suc c) n)"
      by auto
    then show ?thesis
    proof
      assume "x = c"
      with True show ?thesis by (simp add: successes_def)
    next
      assume "Some x \<in> set (created rt (Suc k) (Suc c) n)"
      from Suc.IH [OF this] True show ?thesis by (simp add: successes_def)
    qed
  next
    case False
    with Suc.prems have "Some x \<in> set (created rt (Suc k) c n)"
      by auto
    from Suc.IH [OF this] False show ?thesis by (simp add: successes_def)
  qed
qed

lemma created_all:
  "(\<forall>j < n. rt_CreateContext rt (k + j)) \<Longrightarrow>
   created rt k c n = map (\<lambda>j. Some (c + j)) [0 ..< n]"
proof (induction n arbitrary: k c)
  case 0
  then show ?case by simp
next
  case (Suc n)
  from Suc.prems have k: "rt_CreateContext rt k"
    by (metis add.right_neutral zero_less_Suc)
  from Suc.prems have "\<forall>j < n. rt_CreateContext rt (Suc k + j)"
    by (metis Suc_less_eq add_Suc_shift)
  from Suc.IH [OF this, of "Suc c"] k
  have "created rt k c (Suc n) = Some c # map (\<lambda>j. Some (Suc c + j)) [0 ..< n]"
    by simp
  also have "\<dots> = map (\<lambda>j. Some (c + j)) (0 # map Suc [0 ..< n])"
    by (simp add: o_def)
  also have "0 # map Suc [0 ..< n] = [0 ..< Suc n]"
    by (simp only: map_Suc_upt upt_conv_Cons [of 0 "Suc n"] zero_less_Suc if_True)
  finally show ?case .
qed

lemma successes_all:
  "(\<forall>j < n. rt_CreateContext rt (k + j)) \<Longrightarrow> successes (created rt k c n) = n"
  by (simp add: created_all successes_def o_def)

lemma CreateContext_step:
  "CreateContext rt w =
     (hd (created rt (requests w) (length (w_prepared w)) 1),
      w\<lparr>w_prepared := w_prepared w @
           replicate (successes (created rt (requests w) (length (w_prepared w)) 1)) False,
        w_calls := w_calls w @
           map Call_CreateContext (created rt (requests w) (length (w_prepared w)) 1)\<rparr>)"
  by (simp add: CreateContext_def Let_def api_def successes_def)

lemma created_Suc:
  "created rt k c (Suc n) =
     created rt k c 1 @ created rt (Suc k) (c + successes (created rt k c 1)) n"
  by (simp add: successes_def)

lemma ctor_loop_result:
  "ctor_loop rt i m cs w =
     (cs @ created rt (requests w) (length (w_prepared w)) (m - i),
      w\<lparr>w_prepared := w_prepared w @
           replicate (successes (created rt (requests w) (length (w_prepared w)) (m - i))) False,
        w_calls := w_calls w @
           map Call_CreateContext (created rt (requests w) (length (w_prepared w)) (m - i))\<rparr>)"
proof (induction rt i m cs w rule: ctor_loop.induct)
  case (1 rt i m cs w)
  show ?case
  proof (cases "i < m")
    case False
    then show ?thesis by (simp add: ctor_loop.simps [of rt i m cs w] successes_def)
  next
    case True
    then obtain k where k: "m - i = Suc k" "m - Suc i = k"
      by (metis Suc_diff_Suc)
    define one where "one = created rt (requests w) (length (w_prepared w)) 1"
    define w' where "w' = snd (CreateContext rt w)"
    have cc: "CreateContext rt w = (hd one, w')"
      by (simp add: w'_def one_def CreateContext_step)
    have w': "w_prepared w' = w_prepared w @ replicate (successes one) False"
      "w_calls w' = w_calls w @ map Call_CreateContext one"
      "w_log w' = w_log w" "w_highest w' = w_highest w"
      by (simp_all add: w'_def one_def CreateContext_step)
    have one: "one = [hd one]"
      by (simp add: one_def)
    have "map Call_CreateContext one = [Call_CreateContext (hd one)]"
      by (subst one) simp
    then have r: "requests w' = Suc (requests w)"
      by (simp add: requests_def w'(2))
    have l: "length (w_prepared w') = length (w_prepared w) + successes one"
      by (simp add: w'(1))
    have "ctor_loop rt i m cs w = ctor_loop rt (Suc i) m (cs @ [hd one]) w'"
      using True by (simp add: ctor_loop.simps [of rt i m cs w] cc)
    also have "\<dots> = ((cs @ [hd one]) @ created rt (requests w') (length (w_prepared w')) k,
        w'\<lparr>w_prepared := w_prepared w' @
             replicate (successes (created rt (requests w') (length (w_prepared w')) k)) False,
           w_calls := w_calls w' @
             map Call_CreateContext (created rt (requests w') (length (w_prepared w')) k)\<rparr>)"
      using "1.IH" [OF True cc [symmetric]] k by simp
    also have "(cs @ [hd one]) @ created rt (requests w') (length (w_prepared w')) k =
        cs @ created rt (requests w) (length (w_prepared w)) (Suc k)"
      unfolding r l created_Suc [of rt "requests w"] one_def [symmetric]
      using one by simp
    finally show ?thesis
      unfolding k r l
      apply (simp only: created_Suc [of rt "requests w" _ k] one_def [symmetric])
      apply (simp add: w' world.equality successes_def replicate_add)
      done
  qed
qed

lemma unprepare_loop_result:
  "highest \<le> length ids \<Longrightarrow>
   unprepare_loop i highest (map Some ids) w =
     Inr (fold Unprepare (take (highest - i) (drop i ids)) w)"
proof (induction i highest "map Some ids :: ctx_id option list" w rule: unprepare_loop.induct)
  case (1 i highest w)
  show ?case
  proof (cases "i < highest")
    case False
    then show ?thesis by (simp add: unprepare_loop.simps [of i highest])
  next
    case True
    with "1.prems" have i: "i < length ids" by simp
    from True obtain k where k: "highest - i = Suc k" "highest - Suc i = k"
      by (metis Suc_diff_Suc)
    have "unprepare_loop i highest (map Some ids) w =
            unprepare_loop (Suc i) highest (map Some ids) (Unprepare (ids ! i) w)"
      using True i by (simp add: unprepare_loop.simps [of i highest])
    also have "\<dots> = Inr (fold Unprepare (take k (drop (Suc i) ids)) (Unprepare (ids ! i) w))"
      using "1.hyps" [of "ids ! i"] True i "1.prems" k by simp
    finally show ?thesis
      using k i by (simp add: Cons_nth_drop_Suc [symmetric])
  qed
qed

lemma dtor_loop_result:
  "max_level \<le> length cs \<Longrightarrow>
   dtor_loop i max_level cs w =
     Inr (fold (\<lambda>p w. case p of None \<Rightarrow> w | Some c \<Rightarrow> api (Call_ContextRelease c) w)
            (take (max_level - i) (drop i cs)) w)"
proof (induction i max_level cs w rule: dtor_loop.induct)
  case (1 i max_level cs w)
  show ?case
  proof (cases "i < max_level")
    case False
    then show ?thesis by (simp add: dtor_loop.simps [of i max_level])
  next
    case True
    with "1.prems" have i: "i < length cs" by simp
    from True obtain k where k: "max_level - i = Suc k" "max_level - Suc i = k"
      by (metis Suc_diff_Suc)
    have "dtor_loop i max_level cs w =
            dtor_loop (Suc i) max_level cs
              (case cs ! i of None \<Rightarrow> w | Some c \<Rightarrow> api (Call_ContextRelease c) w)"
      using True i by (simp add: dtor_loop.simps [of i max_level])
    also have "\<dots> = Inr (fold (\<lambda>p w. case p of None \<Rightarrow> w | Some c \<Rightarrow> api (Call_ContextRelease c) w)
            (take k (drop (Suc i) cs))
            (case cs ! i of None \<Rightarrow> w | Some c \<Rightarrow> api (Call_ContextRelease c) w))"
      using "1.IH" True i "1.prems" k by simp
    finally show ?thesis
      using k i by (simp add: Cons_nth_drop_Suc [symmetric])
  qed
qed

subsection \<open>What each member function does\<close>

lemma logMessage_frame:
  assumes "logMessage m s w = (s', w')"
  shows "mAngelScriptEngine s' = mAngelScriptEngine s"
    "mImmediateContext s' = mImmediateContext s"
    "mScriptFileContexts s' = mScriptFileContexts s"
    "mLogMode s' = mLogMode s"
    "w_prepared w' = w_prepared w" "w_calls w' = w_calls w" "w_highest w' = w_highest w"
  using assms
  by (auto simp add: logMessage_def write_log_def Let_def split: if_splits asEMsgType.splits)

lemma report_frame:
  assumes "report ms s w = (s', w')"
  shows "mAngelScriptEngine s' = mAngelScriptEngine s \<and>
    mImmediateContext s' = mImmediateContext s \<and>
    mScriptFileContexts s' = mScriptFileContexts s \<and>
    mLogMode s' = mLogMode s \<and>
    w_prepared w' = w_prepared w \<and> w_calls w' = w_calls w \<and> w_highest w' = w_highest w"
  using assms
proof (induction ms arbitrary: s w)
  case Nil
  then show ?case by simp
next
  case (Cons m ms)
  obtain s1 w1 where step: "logMessage m s w = (s1, w1)"
    by (cases "logMessage m s w")
  with Cons.prems have "report ms s1 w1 = (s', w')"
    by (simp add: messageCallback_def)
  from Cons.IH [OF this] logMessage_frame [OF step] show ?case
    by simp
qed

lemma logMessage_sink:
  assumes "w_log v = w_log w"
  shows "fst (logMessage m s v) = fst (logMessage m s w) \<and>
    w_log (snd (logMessage m s v)) = w_log (snd (logMessage m s w))"
  using assms
  by (cases "msg_type m") (simp_all add: logMessage_def write_log_def Let_def)

lemma report_sink:
  assumes "w_log v = w_log w"
  shows "fst (report ms s v) = fst (report ms s w) \<and>
    w_log (snd (report ms s v)) = w_log (snd (report ms s w))"
  using assms
proof (induction ms arbitrary: s v w)
  case Nil
  then show ?case by simp
next
  case (Cons m ms)
  from logMessage_sink [OF Cons.prems, of m s]
  have s: "fst (logMessage m s v) = fst (logMessage m s w)"
    and l: "w_log (snd (logMessage m s v)) = w_log (snd (logMessage m s w))"
    by simp_all
  from Cons.IH [OF l, of "fst (logMessage m s w)"] s show ?case
    by (simp add: messageCallback_def case_prod_beta)
qed

lemma report_append:
  "report (xs @ ys) s w = (case report xs s w of (s', w') \<Rightarrow> report ys s' w')"
  by (induction xs arbitrary: s w) (simp_all split: prod.splits)

lemma report_information:
  "list_all (\<lambda>m. msg_type m = asMSGTYPE_INFORMATION) ms \<Longrightarrow> fst (report ms s w) = s"
proof (induction ms arbitrary: s w)
  case Nil
  then show ?case by simp
next
  case (Cons m ms)
  then have "fst (logMessage m s w) = s"
    by (simp add: logMessage_def Let_def)
  with Cons show ?case
    by (simp add: messageCallback_def case_prod_beta)
qed

lemma created_distinct:
  "distinct (filter (\<lambda>p. p \<noteq> None) (created rt k c n))"
proof (induction n arbitrary: k c)
  case 0
  then show ?case by simp
next
  case (Suc n)
  have "Some c \<notin> set (created rt (Suc k) (Suc c) n)"
    using created_bounds [of c rt "Suc k" "Suc c" n] by auto
  with Suc show ?case by simp
qed

lemma created_hd_tl:
  "created rt k c (Suc n) = hd (created rt k c (Suc n)) # tl (created rt k c (Suc n))"
  by simp

lemma ctor_result:
  assumes "rt_asCreateScriptEngine rt"
  shows "\<exists>w'. ScriptEngine_ctor max_level mode0 rt w =
     Inr (\<lparr>mAngelScriptEngine = Some (),
           mImmediateContext =
             hd (created rt (requests w) (length (w_prepared w)) (Suc max_level)),
           mScriptFileContexts =
             tl (created rt (requests w) (length (w_prepared w)) (Suc max_level)),
           mLogMode = mode0,
           mLogMessages = []\<rparr>, w') \<and>
     w_prepared w' = w_prepared w @
       replicate (successes (created rt (requests w) (length (w_prepared w)) (Suc max_level)))
         False \<and>
     w_calls w' = w_calls w @
       [Call_asCreateScriptEngine, Call_SetUserData,
        Call_SetEngineProperty asEP_USE_CHARACTER_LITERALS True,
        Call_SetEngineProperty asEP_ALLOW_UNSAFE_REFERENCES True,
        Call_SetMessageCallback, Call_registerArray, Call_registerStdString] @
       map Call_CreateContext (created rt (requests w) (length (w_prepared w)) (Suc max_level)) \<and>
     w_log w' = w_log w @ [(LOG_INFO, ''Script engine created''),
                          (LOG_DEBUG, ''Registering array and string types'')] \<and>
     w_highest w' = w_highest w"
proof -
  define w8 where "w8 =
    api Call_registerStdString (api Call_registerArray
      (LOGDEBUG ''Registering array and string types'' (api Call_SetMessageCallback
        (api (Call_SetEngineProperty asEP_ALLOW_UNSAFE_REFERENCES True)
          (api (Call_SetEngineProperty asEP_USE_CHARACTER_LITERALS True)
            (api Call_SetUserData (LOGINFO ''Script engine created''
              (api Call_asCreateScriptEngine w))))))))"
  have w8: "requests w8 = requests w" "w_prepared w8 = w_prepared w"
    "w_highest w8 = w_highest w"
    "w_calls w8 = w_calls w @
       [Call_asCreateScriptEngine, Call_SetUserData,
        Call_SetEngineProperty asEP_USE_CHARACTER_LITERALS True,
        Call_SetEngineProperty asEP_ALLOW_UNSAFE_REFERENCES True,
        Call_SetMessageCallback, Call_registerArray, Call_registerStdString]"
    "w_log w8 = w_log w @ [(LOG_INFO, ''Script engine created''),
                          (LOG_DEBUG, ''Registering array and string types'')]"
    by (simp_all add: w8_def requests_def api_def write_log_def)
  define one where "one = created rt (requests w) (length (w_prepared w)) 1"
  define w9 where "w9 = snd (CreateContext rt w8)"
  have cc: "CreateContext rt w8 = (hd one, w9)"
    by (simp add: w9_def one_def CreateContext_step w8)
  have w9: "w_prepared w9 = w_prepared w @ replicate (successes one) False"
    "w_calls w9 = w_calls w8 @ map Call_CreateContext one"
    "w_log w9 = w_log w8" "w_highest w9 = w_highest w"
    by (simp_all add: w9_def one_def CreateContext_step w8)
  have one: "one = [hd one]"
    by (simp add: one_def)
  have m1: "map Call_CreateContext one = [Call_CreateContext (hd one)]"
    by (subst one) simp
  then have r: "requests w9 = Suc (requests w)"
    using w8(1) by (simp add: requests_def w9(2))
  have l: "length (w_prepared w9) = length (w_prepared w) + successes one"
    by (simp add: w9(1))
  define rest where "rest = created rt (Suc (requests w)) (length (w_prepared w) + successes one)
    max_level"
  have all: "created rt (requests w) (length (w_prepared w)) (Suc max_level) = hd one # rest"
    unfolding created_Suc [of rt "requests w" _ max_level] one_def [symmetric] rest_def
    by (subst one) simp
  have su: "successes (hd one # rest) = successes one + successes rest"
    by (subst (2) one) (simp add: successes_def)
  define w10 where "w10 = w9\<lparr>w_prepared := w_prepared w9 @ replicate (successes rest) False,
             w_calls := w_calls w9 @ map Call_CreateContext rest\<rparr>"
  have w10: "w_prepared w10 = w_prepared w @ replicate (successes (hd one # rest)) False"
    "w_calls w10 = w_calls w @
       [Call_asCreateScriptEngine, Call_SetUserData,
        Call_SetEngineProperty asEP_USE_CHARACTER_LITERALS True,
        Call_SetEngineProperty asEP_ALLOW_UNSAFE_REFERENCES True,
        Call_SetMessageCallback, Call_registerArray, Call_registerStdString] @
       map Call_CreateContext (hd one # rest)"
    "w_log w10 = w_log w @ [(LOG_INFO, ''Script engine created''),
                          (LOG_DEBUG, ''Registering array and string types'')]"
    "w_highest w10 = w_highest w"
    by (simp_all add: w10_def w9 w8 su replicate_add m1)
  have "ScriptEngine_ctor max_level mode0 rt w =
     Inr (\<lparr>mAngelScriptEngine = Some (), mImmediateContext = hd one,
           mScriptFileContexts = rest, mLogMode = mode0, mLogMessages = []\<rparr>, w10)"
    using assms
    by (simp add: ScriptEngine_ctor_def Let_def w8_def [symmetric] cc ctor_loop_result r l
        rest_def w10_def)
  with w10 show ?thesis
    unfolding all by simp
qed

lemma ctor_facts:
  assumes "ScriptEngine_ctor max_level mode0 rt w = Inr (s, w')"
  shows "rt_asCreateScriptEngine rt"
    "mAngelScriptEngine s = Some ()"
    "mImmediateContext s # mScriptFileContexts s =
       created rt (requests w) (length (w_prepared w)) (Suc max_level)"
    "mLogMessages s = []" "mLogMode s = mode0"
    "w_prepared w' = w_prepared w @
       replicate (successes (created rt (requests w) (length (w_prepared w)) (Suc max_level)))
         False"
    "w_calls w' = w_calls w @
       [Call_asCreateScriptEngine, Call_SetUserData,
        Call_SetEngineProperty asEP_USE_CHARACTER_LITERALS True,
        Call_SetEngineProperty asEP_ALLOW_UNSAFE_REFERENCES True,
        Call_SetMessageCallback, Call_registerArray, Call_registerStdString] @
       map Call_CreateContext (mImmediateContext s # mScriptFileContexts s)"
    "w_highest w' = w_highest w"
proof -
  show rt: "rt_asCreateScriptEngine rt"
    using assms by (auto simp add: ScriptEngine_ctor_def Let_def split: if_splits)
  from ctor_result [OF rt, of max_level mode0 w] assms
  have s: "s = \<lparr>mAngelScriptEngine = Some (),
           mImmediateContext =
             hd (created rt (requests w) (length (w_prepared w)) (Suc max_level)),
           mScriptFileContexts =
             tl (created rt (requests w) (length (w_prepared w)) (Suc max_level)),
           mLogMode = mode0,
           mLogMessages = []\<rparr>"
    and w: "w_prepared w' = w_prepared w @
       replicate (successes (created rt (requests w) (length (w_prepared w)) (Suc max_level)))
         False"
     "w_calls w' = w_calls w @
       [Call_asCreateScriptEngine, Call_SetUserData,
        Call_SetEngineProperty asEP_USE_CHARACTER_LITERALS True,
        Call_SetEngineProperty asEP_ALLOW_UNSAFE_REFERENCES True,
        Call_SetMessageCallback, Call_registerArray, Call_registerStdString] @
       map Call_CreateContext (created rt (requests w) (length (w_prepared w)) (Suc max_level))"
     "w_highest w' = w_highest w"
    by auto
  show "mAngelScriptEngine s = Some ()" "mLogMessages s = []" "mLogMode s = mode0"
    by (simp_all add: s)
  show all: "mImmediateContext s # mScriptFileContexts s =
       created rt (requests w) (length (w_prepared w)) (Suc max_level)"
    unfolding s using created_hd_tl [of rt "requests w" "length (w_prepared w)" max_level]
    by simp
  show "w_prepared w' = w_prepared w @
       replicate (successes (created rt (requests w) (length (w_prepared w)) (Suc max_level)))
         False"
    "w_highest w' = w_highest w"
    by (rule w)+
  show "w_calls w' = w_calls w @
       [Call_asCreateScriptEngine, Call_SetUserData,
        Call_SetEngineProperty asEP_USE_CHARACTER_LITERALS True,
        Call_SetEngineProperty asEP_ALLOW_UNSAFE_REFERENCES True,
        Call_SetMessageCallback, Call_registerArray, Call_registerStdString] @
       map Call_CreateContext (mImmediateContext s # mScriptFileContexts s)"
    unfolding all by (rule w)
qed

lemma ctor_pool:
  assumes "ScriptEngine_ctor max_level mode0 rt w = Inr (s, w')"
  shows "length (mScriptFileContexts s) = max_level"
    "(mImmediateContext s \<noteq> None) = rt_CreateContext rt (requests w)"
    "level < max_level \<Longrightarrow>
       (mScriptFileContexts s ! level \<noteq> None) = rt_CreateContext rt (requests w + 1 + level)"
    "p \<in> set (mImmediateContext s # mScriptFileContexts s) \<Longrightarrow> p = Some c \<Longrightarrow>
       c < length (w_prepared w') \<and> \<not> w_prepared w' ! c"
    "mImmediateContext s \<noteq> None \<Longrightarrow> mImmediateContext s \<notin> set (mScriptFileContexts s)"
    "distinct (filter (\<lambda>p. p \<noteq> None) (mScriptFileContexts s))"
proof -
  note f = ctor_facts [OF assms]
  define all where "all = created rt (requests w) (length (w_prepared w)) (Suc max_level)"
  have all: "mImmediateContext s # mScriptFileContexts s = all"
    by (simp add: all_def f(3))
  have len: "length all = Suc max_level"
    by (simp add: all_def length_created)
  from all len show "length (mScriptFileContexts s) = max_level"
    by (metis length_Cons nat.inject)
  have nth: "j < Suc max_level \<Longrightarrow> (all ! j \<noteq> None) = rt_CreateContext rt (requests w + j)" for j
    unfolding all_def by (rule created_nth)
  from nth [of 0] show "(mImmediateContext s \<noteq> None) = rt_CreateContext rt (requests w)"
    unfolding all [symmetric] by simp
  show "(mScriptFileContexts s ! level \<noteq> None) = rt_CreateContext rt (requests w + 1 + level)"
    if "level < max_level"
    using nth [of "Suc level"] that unfolding all [symmetric] by simp
  show "c < length (w_prepared w') \<and> \<not> w_prepared w' ! c"
    if "p \<in> set (mImmediateContext s # mScriptFileContexts s)" "p = Some c"
  proof -
    from that have "Some c \<in> set all"
      unfolding all by simp
    from created_bounds [OF this [unfolded all_def]]
    have "length (w_prepared w) \<le> c" "c < length (w_prepared w) + successes all"
      by (simp_all add: all_def)
    then show ?thesis
      unfolding f(6) all_def [symmetric] by (simp add: nth_append)
  qed
  have d: "distinct (filter (\<lambda>p. p \<noteq> None) (mImmediateContext s # mScriptFileContexts s))"
    unfolding all all_def by (rule created_distinct)
  then show "mImmediateContext s \<notin> set (mScriptFileContexts s)"
    if "mImmediateContext s \<noteq> None"
    using that by simp
  from d show "distinct (filter (\<lambda>p. p \<noteq> None) (mScriptFileContexts s))"
    by (simp split: if_splits)
qed

lemma ctor_all_created:
  assumes "ScriptEngine_ctor max_level mode0 rt w = Inr (s, w')"
    and "\<forall>k \<le> max_level. rt_CreateContext rt (requests w + k)"
  shows "mImmediateContext s = Some (length (w_prepared w))"
    "mScriptFileContexts s =
       map (\<lambda>i. Some (Suc (length (w_prepared w) + i))) [0 ..< max_level]"
    "w_prepared w' = w_prepared w @ replicate (Suc max_level) False"
proof -
  note f = ctor_facts [OF assms(1)]
  from assms(2) have a: "\<forall>j < Suc max_level. rt_CreateContext rt (requests w + j)"
    by simp
  have "mImmediateContext s # mScriptFileContexts s =
      map (\<lambda>j. Some (length (w_prepared w) + j)) [0 ..< Suc max_level]"
    unfolding f(3) using a by (rule created_all)
  also have "[0 ..< Suc max_level] = 0 # map Suc [0 ..< max_level]"
    by (simp only: map_Suc_upt upt_conv_Cons [of 0 "Suc max_level"] zero_less_Suc if_True)
  finally show "mImmediateContext s = Some (length (w_prepared w))"
    "mScriptFileContexts s =
       map (\<lambda>i. Some (Suc (length (w_prepared w) + i))) [0 ..< max_level]"
    by (simp_all add: o_def)
  show "w_prepared w' = w_prepared w @ replicate (Suc max_level) False"
    unfolding f(6) using successes_all [OF a] by simp
qed

lemma ctor_engine_ok:
  assumes "ScriptEngine_ctor max_level mode0 rt w = Inr (s, w')"
    and "\<forall>k \<le> max_level. rt_CreateContext rt (requests w + k)"
  shows "engine_ok s w'"
  using ctor_facts(2) [OF assms(1)] ctor_all_created [OF assms]
  by (auto simp add: engine_ok_def valid_ctx_def list_all_iff simp del: upt_Suc)

lemma dtor_result:
  assumes "max_level \<le> length (mScriptFileContexts s)"
  shows "\<exists>s' w'. ScriptEngine_dtor max_level s w = Inr (s', w') \<and>
    mScriptFileContexts s' = [] \<and> mImmediateContext s' = None \<and> mAngelScriptEngine s' = None"
  using assms
  by (cases "mImmediateContext s"; cases "mAngelScriptEngine s")
    (simp_all add: ScriptEngine_dtor_def Let_def dtor_loop_result)

lemma execute_result:
  assumes "engine_ok s w"
  shows "\<exists>s' w'. execute rt line s w =
     Inr (rt_GetModule rt ''ExecuteImmediate'' \<and>
          0 \<le> fst (rt_CompileFunction rt line (wrappedLine line)) \<and>
          0 \<le> rt_Prepare rt (wrappedLine line) \<and>
          0 \<le> rt_Execute rt (wrappedLine line), s', w')"
proof -
  obtain e c where e: "mAngelScriptEngine s = Some e" and c: "mImmediateContext s = Some c"
    using assms by (auto simp add: engine_ok_def valid_ctx_def split: option.splits)
  obtain r msgs where comp: "rt_CompileFunction rt line (wrappedLine line) = (r, msgs)"
    by (cases "rt_CompileFunction rt line (wrappedLine line)")
  obtain s2 w2 where rep:
    "report msgs s (api (Call_CompileFunction line (wrappedLine line))
       (api (Call_GetModule ''ExecuteImmediate'' asGM_ALWAYS_CREATE) w)) = (s2, w2)"
    by (cases "report msgs s (api (Call_CompileFunction line (wrappedLine line))
       (api (Call_GetModule ''ExecuteImmediate'' asGM_ALWAYS_CREATE) w))")
  from report_frame [OF rep] c have c2: "mImmediateContext s2 = Some c"
    by simp
  show ?thesis
    by (simp add: execute_def e comp rep c2 Let_def)
qed

lemma execute_outcome:
  assumes "engine_ok s w"
  shows "\<exists>w'. execute rt line s w =
     Inr (rt_GetModule rt ''ExecuteImmediate'' \<and>
          0 \<le> fst (rt_CompileFunction rt line (wrappedLine line)) \<and>
          0 \<le> rt_Prepare rt (wrappedLine line) \<and>
          0 \<le> rt_Execute rt (wrappedLine line),
          if rt_GetModule rt ''ExecuteImmediate''
          then fst (report (snd (rt_CompileFunction rt line (wrappedLine line))) s w)
          else s,
          w') \<and>
     w_log w' =
       (if rt_GetModule rt ''ExecuteImmediate''
        then w_log (snd (report (snd (rt_CompileFunction rt line (wrappedLine line))) s w))
        else w_log w)"
proof -
  obtain e c where e: "mAngelScriptEngine s = Some e" and c: "mImmediateContext s = Some c"
    using assms by (auto simp add: engine_ok_def valid_ctx_def split: option.splits)
  obtain r msgs where comp: "rt_CompileFunction rt line (wrappedLine line) = (r, msgs)"
    by (cases "rt_CompileFunction rt line (wrappedLine line)")
  define v where "v = api (Call_CompileFunction line (wrappedLine line))
       (api (Call_GetModule ''ExecuteImmediate'' asGM_ALWAYS_CREATE) w)"
  obtain s2 w2 where rep: "report msgs s v = (s2, w2)"
    by (cases "report msgs s v")
  have "w_log v = w_log w"
    by (simp add: v_def api_frame)
  from report_sink [OF this, of msgs s] rep
  have s2: "s2 = fst (report msgs s w)" and w2: "w_log w2 = w_log (snd (report msgs s w))"
    by simp_all
  from report_frame [OF rep] c have c2: "mImmediateContext s2 = Some c"
    by simp
  define p where "p = rt_Prepare rt (wrappedLine line)"
  have pl: "w_log (Prepare c p w2) = w_log w2"
    by (simp add: Prepare_def api_def)
  have ex: "execute rt line s w =
      (if \<not> rt_GetModule rt ''ExecuteImmediate''
       then Inr (False, s, api (Call_GetModule ''ExecuteImmediate'' asGM_ALWAYS_CREATE) w)
       else if r < 0 then Inr (False, s2, w2)
       else if p < 0 then Inr (False, s2, api Call_FunctionRelease (Prepare c p w2))
       else Inr (0 \<le> rt_Execute rt (wrappedLine line), s2,
                 api Call_FunctionRelease (api (Call_Execute c) (Prepare c p w2))))"
    using rep by (simp add: execute_def e comp c2 Let_def p_def v_def)
  show ?thesis
    unfolding ex comp p_def [symmetric]
    by (simp add: s2 [symmetric] w2 [symmetric] api_frame pl not_less [symmetric])
qed

lemma execute_frame:
  assumes "engine_ok s w" and "execute rt line s w = Inr (b, s', w')"
  shows "mAngelScriptEngine s' = mAngelScriptEngine s"
    "mImmediateContext s' = mImmediateContext s"
    "mScriptFileContexts s' = mScriptFileContexts s"
    "mLogMode s' = mLogMode s"
    "length (w_prepared w') = length (w_prepared w)"
    "w_highest w' = w_highest w"
proof -
  obtain e c where e: "mAngelScriptEngine s = Some e" and c: "mImmediateContext s = Some c"
    using assms(1) by (auto simp add: engine_ok_def valid_ctx_def split: option.splits)
  obtain r msgs where comp: "rt_CompileFunction rt line (wrappedLine line) = (r, msgs)"
    by (cases "rt_CompileFunction rt line (wrappedLine line)")
  obtain s2 w2 where rep:
    "report msgs s (api (Call_CompileFunction line (wrappedLine line))
       (api (Call_GetModule ''ExecuteImmediate'' asGM_ALWAYS_CREATE) w)) = (s2, w2)"
    by (cases "report msgs s (api (Call_CompileFunction line (wrappedLine line))
       (api (Call_GetModule ''ExecuteImmediate'' asGM_ALWAYS_CREATE) w))")
  note fr = report_frame [OF rep]
  from fr c have c2: "mImmediateContext s2 = Some c"
    by simp
  define w1 where "w1 = api (Call_GetModule ''ExecuteImmediate'' asGM_ALWAYS_CREATE) w"
  define p where "p = rt_Prepare rt (wrappedLine line)"
  have ex: "execute rt line s w =
      (if \<not> rt_GetModule rt ''ExecuteImmediate'' then Inr (False, s, w1)
       else if r < 0 then Inr (False, s2, w2)
       else if p < 0 then Inr (False, s2, api Call_FunctionRelease (Prepare c p w2))
       else Inr (0 \<le> rt_Execute rt (wrappedLine line), s2,
                 api Call_FunctionRelease (api (Call_Execute c) (Prepare c p w2))))"
    by (simp add: execute_def e comp rep c2 Let_def w1_def p_def)
  consider (module) "s' = s" "w' = w1"
    | (compile) "s' = s2" "w' = w2"
    | (prepare) "s' = s2" "w' = api Call_FunctionRelease (Prepare c p w2)"
    | (run) "s' = s2" "w' = api Call_FunctionRelease (api (Call_Execute c) (Prepare c p w2))"
    using assms(2) unfolding ex by (auto split: if_splits)
  then have all: "mAngelScriptEngine s' = mAngelScriptEngine s \<and>
    mImmediateContext s' = mImmediateContext s \<and>
    mScriptFileContexts s' = mScriptFileContexts s \<and>
    mLogMode s' = mLogMode s \<and>
    length (w_prepared w') = length (w_prepared w) \<and>
    w_highest w' = w_highest w"
  proof cases
    case module
    then show ?thesis by (simp add: w1_def api_frame)
  next
    case compile
    with fr show ?thesis by (simp add: api_frame)
  next
    case prepare
    with fr show ?thesis by (simp add: api_frame Prepare_frame)
  next
    case run
    with fr show ?thesis by (simp add: api_frame Prepare_frame)
  qed
  then show "mAngelScriptEngine s' = mAngelScriptEngine s"
    "mImmediateContext s' = mImmediateContext s"
    "mScriptFileContexts s' = mScriptFileContexts s"
    "mLogMode s' = mLogMode s"
    "length (w_prepared w') = length (w_prepared w)"
    "w_highest w' = w_highest w"
    by simp_all
qed

lemma execute_engine_ok:
  assumes "engine_ok s w" and "execute rt line s w = Inr (b, s', w')"
  shows "engine_ok s' w'"
  using assms(1) execute_frame(1-3) [OF assms]
  by (simp add: engine_ok_def valid_ctx_cong [OF execute_frame(5) [OF assms]])

lemma garbageCollect_result:
  assumes ok: "engine_ok s w" and hi: "w_highest w \<le> length (mScriptFileContexts s)"
  shows "\<exists>c ids. mImmediateContext s = Some c \<and> mScriptFileContexts s = map Some ids \<and>
     garbageCollect fullCycle s w =
       Inr (s, fold api
                 (if fullCycle then [Call_GarbageCollect {asGC_FULL_CYCLE}]
                  else [Call_GarbageCollect {asGC_ONE_STEP, asGC_DETECT_GARBAGE},
                        Call_GarbageCollect {asGC_FULL_CYCLE, asGC_DESTROY_GARBAGE}])
                 (fold Unprepare (c # take (w_highest w) ids) w))"
proof -
  obtain e c where e: "mAngelScriptEngine s = Some e" and c: "mImmediateContext s = Some c"
    using ok by (auto simp add: engine_ok_def valid_ctx_def split: option.splits)
  define ids where "ids = map the (mScriptFileContexts s)"
  have ids: "mScriptFileContexts s = map Some ids"
    unfolding ids_def using ok by (intro pool_as_ids [of w]) (simp add: engine_ok_def)
  have len: "w_highest w \<le> length ids"
    using hi by (simp add: ids_def)
  have h1: "w_highest (Unprepare c w) = w_highest w"
    by (simp add: Unprepare_def api_def)
  have "garbageCollect fullCycle s w =
       Inr (s, fold api
                 (if fullCycle then [Call_GarbageCollect {asGC_FULL_CYCLE}]
                  else [Call_GarbageCollect {asGC_ONE_STEP, asGC_DETECT_GARBAGE},
                        Call_GarbageCollect {asGC_FULL_CYCLE, asGC_DESTROY_GARBAGE}])
                 (fold Unprepare (c # take (w_highest w) ids) w))"
    by (simp add: garbageCollect_def e c Let_def h1 ids unprepare_loop_result [OF len])
  with c ids show ?thesis by blast
qed

lemma garbageCollect_unprepared:
  assumes ok: "engine_ok s w" and hi: "w_highest w \<le> length (mScriptFileContexts s)"
    and g: "garbageCollect fullCycle s w = Inr (s', w')"
  shows "s' = s" "w_highest w' = w_highest w" "length (w_prepared w') = length (w_prepared w)"
    "is_unprepared w' (mImmediateContext s)"
    "\<forall>i < w_highest w. is_unprepared w' (mScriptFileContexts s ! i)"
    "\<forall>j < length (w_prepared w). \<not> w_prepared w ! j \<longrightarrow> \<not> w_prepared w' ! j"
proof -
  from garbageCollect_result [OF ok hi, of fullCycle] g obtain c ids where
    r: "mImmediateContext s = Some c" "mScriptFileContexts s = map Some ids"
      "w' = fold api
                 (if fullCycle then [Call_GarbageCollect {asGC_FULL_CYCLE}]
                  else [Call_GarbageCollect {asGC_ONE_STEP, asGC_DETECT_GARBAGE},
                        Call_GarbageCollect {asGC_FULL_CYCLE, asGC_DESTROY_GARBAGE}])
                 (fold Unprepare (c # take (w_highest w) ids) w)" "s' = s"
    by auto
  define xs where "xs = c # take (w_highest w) ids"
  have p: "w_prepared w' = w_prepared (fold Unprepare xs w)"
    by (simp only: r(3) fold_api_frame xs_def)
  have cx: "c \<in> set xs" and tx: "set (take (w_highest w) ids) \<subseteq> set xs"
    by (auto simp add: xs_def)
  show "s' = s" by (rule r)
  show "w_highest w' = w_highest w"
    by (simp only: r(3) fold_api_frame fold_Unprepare_frame)
  show len: "length (w_prepared w') = length (w_prepared w)"
    by (simp only: p fold_Unprepare_frame)
  have cv: "c < length (w_prepared w)"
    using ok r by (simp add: engine_ok_def valid_ctx_def)
  show "is_unprepared w' (mImmediateContext s)"
    using cv cx by (simp add: is_unprepared_def r(1) len) (simp add: p fold_Unprepare_prepared)
  show "\<forall>i < w_highest w. is_unprepared w' (mScriptFileContexts s ! i)"
  proof (intro allI impI)
    fix i assume i: "i < w_highest w"
    with hi r have il: "i < length ids" by simp
    have "valid_ctx w (mScriptFileContexts s ! i)"
      using ok il r by (simp add: engine_ok_def list_all_length)
    then have v: "ids ! i < length (w_prepared w)"
      using il by (simp add: r valid_ctx_def)
    have "ids ! i \<in> set (take (w_highest w) ids)"
      using i il by (metis in_set_conv_nth length_take min_less_iff_conj nth_take)
    with tx have "ids ! i \<in> set xs" by blast
    then show "is_unprepared w' (mScriptFileContexts s ! i)"
      using v il by (simp add: is_unprepared_def r(2) len) (simp add: p fold_Unprepare_prepared)
  qed
  show "\<forall>j < length (w_prepared w). \<not> w_prepared w ! j \<longrightarrow> \<not> w_prepared w' ! j"
    by (simp add: p fold_Unprepare_prepared)
qed

lemma garbageCollect_engine_ok:
  assumes "engine_ok s w" and "w_highest w \<le> length (mScriptFileContexts s)"
    and "garbageCollect fullCycle s w = Inr (s', w')"
  shows "engine_ok s' w'" "w_highest w' \<le> length (mScriptFileContexts s')"
  using assms(1,2) garbageCollect_unprepared(1,2) [OF assms]
  by (simp_all add: engine_ok_cong [OF garbageCollect_unprepared(3) [OF assms]])

subsection \<open>The concrete engine\<close>

lemma constructed_eq:
  "constructed =
     (\<lparr>mAngelScriptEngine = Some (), mImmediateContext = Some 0,
       mScriptFileContexts = [Some 1, Some 2], mLogMode = LOGMODE_RETAINED,
       mLogMessages = []\<rparr>,
      \<lparr>w_prepared = [False, False, False],
       w_calls =
         [Call_asCreateScriptEngine, Call_SetUserData,
          Call_SetEngineProperty asEP_USE_CHARACTER_LITERALS True,
          Call_SetEngineProperty asEP_ALLOW_UNSAFE_REFERENCES True,
          Call_SetMessageCallback, Call_registerArray, Call_registerStdString,
          Call_CreateContext (Some 0), Call_CreateContext (Some 1),
          Call_CreateContext (Some 2)],
       w_log = [(LOG_INFO, ''Script engine created''),
                (LOG_DEBUG, ''Registering array and string types'')],
       w_highest = 0\<rparr>)"
  by (simp add: constructed_def ScriptEngine_ctor_def ok_runtime_def empty_world_def Let_def
      CreateContext_def api_def write_log_def ctor_loop_result requests_def successes_def
      numeral_2_eq_2)

lemma constructed_ok: "engine_ok (fst constructed) (snd constructed)"
  by (simp add: constructed_eq engine_ok_def valid_ctx_def)

lemma nested_ok:
  "engine_ok (fst constructed) nested_world"
  "w_highest nested_world \<le> length (mScriptFileContexts (fst constructed))"
  "list_all (\<lambda>prepared. \<not> prepared) (w_prepared nested_world)"
  by (simp_all add: nested_world_def constructed_eq engine_ok_def valid_ctx_def)

lemma short_pool_eq:
  "ScriptEngine_ctor 2 LOGMODE_RETAINED short_runtime empty_world = Inr short_pool"
  "mImmediateContext (fst short_pool) = Some 0"
  "mScriptFileContexts (fst short_pool) = [Some 1, None]"
  "w_prepared (snd short_pool) = [False, False]"
  by (simp_all add: short_pool_def ScriptEngine_ctor_def short_runtime_def ok_runtime_def
      empty_world_def Let_def CreateContext_def api_def write_log_def ctor_loop_result
      requests_def successes_def numeral_2_eq_2)

lemma unusable_eq:
  "ScriptEngine_ctor 2 LOGMODE_RETAINED contextless_runtime empty_world = Inr unusable"
  "mAngelScriptEngine (fst unusable) = Some ()"
  "mImmediateContext (fst unusable) = None"
  "mScriptFileContexts (fst unusable) = [None, None]"
  by (simp_all add: unusable_def ScriptEngine_ctor_def contextless_runtime_def ok_runtime_def
      empty_world_def Let_def CreateContext_def api_def write_log_def ctor_loop_result
      requests_def successes_def numeral_2_eq_2)

lemma toString_examples: "toString 2 = ''2''" "toString 4 = ''4''" "toString 1 = ''1''"
  by (simp_all add: toString_def decimal.simps digit_char_def)

section \<open>The claims\<close>

subsection \<open>C1: what \<open>execute\<close> reports\<close>

text \<open>
  C1, in the form that holds of the code. On a constructed engine \<open>execute\<close> always returns a boolean and never
  faults or throws. The boolean is false when the module cannot be obtained, when
  \<open>CompileFunction\<close> returns a negative code (a syntax error or any other compile error),
  when \<open>Prepare\<close> returns a negative code and when \<open>Execute\<close> returns a negative code; in
  every other case it is true, also when the script ends in an exception. The diagnostics the compiler emitted have gone through
  \<open>logMessage\<close>: the engine and the log are the ones \<open>report\<close> leaves.
\<close>

theorem execute_reports_failures:
  assumes "engine_ok s w"
  shows "\<exists>w'. execute rt line s w =
     Inr (rt_GetModule rt ''ExecuteImmediate'' \<and>
          0 \<le> fst (rt_CompileFunction rt line (wrappedLine line)) \<and>
          0 \<le> rt_Prepare rt (wrappedLine line) \<and>
          0 \<le> rt_Execute rt (wrappedLine line),
          if rt_GetModule rt ''ExecuteImmediate''
          then fst (report (snd (rt_CompileFunction rt line (wrappedLine line))) s w)
          else s,
          w') \<and>
     w_log w' =
       (if rt_GetModule rt ''ExecuteImmediate''
        then w_log (snd (report (snd (rt_CompileFunction rt line (wrappedLine line))) s w))
        else w_log w)"
  using assms by (rule execute_outcome)

theorem execute_reports_failures_witness:
  "engine_ok (fst constructed) (snd constructed) \<and>
   (\<exists>s' w'. execute rejecting_runtime ''f('' (fst constructed) (snd constructed) =
      Inr (False, s', w') \<and>
      mLogMessages s' = ''f( (2,4) Expected expression value'' @ [CHR 0x0A])"
proof -
  have r: "mLogMessages (fst (report [note_message, syntax_error] (fst constructed)
      (snd constructed))) = ''f( (2,4) Expected expression value'' @ [CHR 0x0A]"
    by (simp add: constructed_eq messageCallback_def logMessage_def note_message_def
        syntax_error_def toString_examples)
  from execute_reports_failures [OF constructed_ok, of rejecting_runtime "''f(''"]
  obtain w' where "execute rejecting_runtime ''f('' (fst constructed) (snd constructed) =
     Inr (False, fst (report [note_message, syntax_error] (fst constructed) (snd constructed)),
          w')"
    by (auto simp add: rejecting_runtime_def ok_runtime_def)
  with r constructed_ok show ?thesis
    by simp
qed

text \<open>
  C1 as stated also promises false when the compiled code throws at run time. A script
  exception is not an error of the call: \<open>Execute\<close> returns the state
  \<open>asEXECUTION_EXCEPTION\<close>, which is not negative, and the test \<open>Execute() >= 0\<close> makes the
  result true.
\<close>

theorem execute_script_exception_counterexample:
  "engine_ok (fst constructed) (snd constructed) \<and>
   rt_Execute raising_runtime (wrappedLine ''f()'') =
     asEContextState_value asEXECUTION_EXCEPTION \<and>
   map_sum id fst (execute raising_runtime ''f()'' (fst constructed) (snd constructed)) =
     Inr True"
  by (simp add: constructed_ok)
    (simp add: constructed_eq execute_def raising_runtime_def ok_runtime_def Let_def)

subsection \<open>C2: context lookup\<close>

text \<open>
  C2, in the form that holds of the code. After construction with maximum nesting level
  \<open>max_level\<close>, \<open>getScriptFileContext level\<close> is the null pointer for every
  \<open>level \<ge> max_level\<close>. For every \<open>level < max_level\<close> it is the pointer the library
  returned to the constructor's call of \<open>CreateContext\<close> for that level, stored without a
  test: a pointer to an existing, unprepared context other than the immediate one when
  that call returned a context, and the null pointer when it returned null.
\<close>

theorem getScriptFileContext_bounds:
  assumes "ScriptEngine_ctor max_level mode0 rt w = Inr (s, w')"
  shows "(max_level \<le> level \<longrightarrow> getScriptFileContext level s = None) \<and>
    (level < max_level \<longrightarrow>
       Call_CreateContext (getScriptFileContext level s) =
         w_calls w' ! (length (w_calls w) + 8 + level) \<and>
       (getScriptFileContext level s \<noteq> None) = rt_CreateContext rt (requests w + 1 + level) \<and>
       (\<forall>c. getScriptFileContext level s = Some c \<longrightarrow>
            c < length (w_prepared w') \<and> \<not> w_prepared w' ! c \<and>
            Some c \<noteq> mImmediateContext s))"
proof (intro conjI impI allI)
  note p = ctor_pool [OF assms]
  note f = ctor_facts [OF assms]
  show "getScriptFileContext level s = None" if "max_level \<le> level"
    using that p(1) by (simp add: getScriptFileContext_def)
  assume l: "level < max_level"
  then have g: "getScriptFileContext level s = mScriptFileContexts s ! level"
    using p(1) by (simp add: getScriptFileContext_def)
  show "Call_CreateContext (getScriptFileContext level s) =
         w_calls w' ! (length (w_calls w) + 8 + level)"
    using l p(1) unfolding g f(7) by (simp add: nth_append)
  show "(getScriptFileContext level s \<noteq> None) = rt_CreateContext rt (requests w + 1 + level)"
    unfolding g using l by (rule p(3))
  fix c assume c: "getScriptFileContext level s = Some c"
  with g l p(1) have m: "Some c \<in> set (mScriptFileContexts s)"
    by (metis nth_mem)
  then have "Some c \<in> set (mImmediateContext s # mScriptFileContexts s)"
    by simp
  from p(4) [OF this refl] show "c < length (w_prepared w')" "\<not> w_prepared w' ! c"
    by simp_all
  from p(5) m show "Some c \<noteq> mImmediateContext s"
    by (cases "mImmediateContext s") auto
qed

theorem getScriptFileContext_bounds_witness:
  "ScriptEngine_ctor 2 LOGMODE_RETAINED short_runtime empty_world = Inr short_pool \<and>
   rt_CreateContext short_runtime (requests empty_world + 1 + 0) \<and>
   getScriptFileContext 0 (fst short_pool) = Some 1 \<and>
   \<not> rt_CreateContext short_runtime (requests empty_world + 1 + 1) \<and>
   getScriptFileContext 1 (fst short_pool) = None \<and>
   getScriptFileContext 2 (fst short_pool) = None \<and>
   getScriptFileContext 4294967295 (fst short_pool) = None"
proof -
  have c: "ScriptEngine_ctor 2 LOGMODE_RETAINED short_runtime empty_world =
      Inr (fst short_pool, snd short_pool)"
    by (simp add: short_pool_eq)
  have r: "rt_CreateContext short_runtime (requests empty_world + 1 + 0)"
    "\<not> rt_CreateContext short_runtime (requests empty_world + 1 + 1)"
    by (simp_all add: short_runtime_def requests_def empty_world_def)
  have z: "getScriptFileContext 0 (fst short_pool) = Some 1"
    by (simp add: getScriptFileContext_def short_pool_eq)
  from getScriptFileContext_bounds [OF c, of 0] getScriptFileContext_bounds [OF c, of 1]
    getScriptFileContext_bounds [OF c, of 2] getScriptFileContext_bounds [OF c, of 4294967295]
  show ?thesis
    using r z by (simp add: short_pool_eq)
qed

text \<open>
  C2 as stated promises a non-null context at every level below the maximum. When a call
  of \<open>CreateContext\<close> in the constructor's loop returns null, the null pointer is what the
  pool holds at that level and what the lookup returns.
\<close>

theorem getScriptFileContext_null_below_maximum:
  "ScriptEngine_ctor 2 LOGMODE_RETAINED short_runtime empty_world = Inr short_pool \<and>
   (1::nat) < 2 \<and> getScriptFileContext 1 (fst short_pool) = None"
  by (simp add: short_pool_eq getScriptFileContext_def)

subsection \<open>C3: the calls of \<open>garbageCollect\<close>\<close>

text \<open>
  C3. On a constructed engine, with the highest nesting level within the pool (the spec
  bounds the nesting level by the maximum), \<open>garbageCollect fullCycle\<close> makes exactly
  these library calls, in this order: \<open>Unprepare\<close> on the immediate context, \<open>Unprepare\<close>
  on the per-level contexts \<open>0 .. highest - 1\<close>; then one \<open>GarbageCollect\<close> with
  \<open>asGC_FULL_CYCLE\<close> when \<open>fullCycle\<close> holds, and otherwise two: \<open>asGC_ONE_STEP |
  asGC_DETECT_GARBAGE\<close> followed by \<open>asGC_FULL_CYCLE | asGC_DESTROY_GARBAGE\<close>.
\<close>

theorem garbageCollect_calls:
  assumes "engine_ok s w" and "w_highest w \<le> length (mScriptFileContexts s)"
  shows "\<exists>c ids s' w'. mImmediateContext s = Some c \<and> mScriptFileContexts s = map Some ids \<and>
     garbageCollect fullCycle s w = Inr (s', w') \<and>
     w_calls w' = w_calls w @ Call_Unprepare c # map Call_Unprepare (take (w_highest w) ids) @
       (if fullCycle then [Call_GarbageCollect {asGC_FULL_CYCLE}]
        else [Call_GarbageCollect {asGC_ONE_STEP, asGC_DETECT_GARBAGE},
              Call_GarbageCollect {asGC_FULL_CYCLE, asGC_DESTROY_GARBAGE}])"
proof -
  from garbageCollect_result [OF assms, of fullCycle] obtain c ids where
    r: "mImmediateContext s = Some c" "mScriptFileContexts s = map Some ids"
      "garbageCollect fullCycle s w =
       Inr (s, fold api
                 (if fullCycle then [Call_GarbageCollect {asGC_FULL_CYCLE}]
                  else [Call_GarbageCollect {asGC_ONE_STEP, asGC_DETECT_GARBAGE},
                        Call_GarbageCollect {asGC_FULL_CYCLE, asGC_DESTROY_GARBAGE}])
                 (fold Unprepare (c # take (w_highest w) ids) w))"
    by blast
  have "w_calls (fold api
                 (if fullCycle then [Call_GarbageCollect {asGC_FULL_CYCLE}]
                  else [Call_GarbageCollect {asGC_ONE_STEP, asGC_DETECT_GARBAGE},
                        Call_GarbageCollect {asGC_FULL_CYCLE, asGC_DESTROY_GARBAGE}])
                 (fold Unprepare (c # take (w_highest w) ids) w)) =
     w_calls w @ Call_Unprepare c # map Call_Unprepare (take (w_highest w) ids) @
       (if fullCycle then [Call_GarbageCollect {asGC_FULL_CYCLE}]
        else [Call_GarbageCollect {asGC_ONE_STEP, asGC_DETECT_GARBAGE},
              Call_GarbageCollect {asGC_FULL_CYCLE, asGC_DESTROY_GARBAGE}])"
    by (simp only: fold_api_calls fold_Unprepare_calls) simp
  with r show ?thesis by blast
qed

theorem garbageCollect_calls_witness:
  "engine_ok (fst constructed) nested_world \<and>
   w_highest nested_world \<le> length (mScriptFileContexts (fst constructed)) \<and>
   (\<exists>s' w'. garbageCollect False (fst constructed) nested_world = Inr (s', w') \<and>
      w_calls w' = w_calls nested_world @
        [Call_Unprepare 0, Call_Unprepare 1,
         Call_GarbageCollect {asGC_ONE_STEP, asGC_DETECT_GARBAGE},
         Call_GarbageCollect {asGC_FULL_CYCLE, asGC_DESTROY_GARBAGE}]) \<and>
   (\<exists>s' w'. garbageCollect True (fst constructed) nested_world = Inr (s', w') \<and>
      w_calls w' = w_calls nested_world @
        [Call_Unprepare 0, Call_Unprepare 1, Call_GarbageCollect {asGC_FULL_CYCLE}])"
proof -
  have ids: "mScriptFileContexts (fst constructed) = map Some [1, 2]"
    "mImmediateContext (fst constructed) = Some 0" "w_highest nested_world = 1"
    by (simp_all add: constructed_eq nested_world_def)
  from garbageCollect_calls [OF nested_ok(1,2), of False]
    garbageCollect_calls [OF nested_ok(1,2), of True]
  show ?thesis
    using nested_ok(1,2) by (auto simp add: ids)
qed

subsection \<open>C4: \<open>garbageCollect\<close> with nothing prepared\<close>

text \<open>
  C4. On a constructed engine with no context prepared, \<open>garbageCollect\<close> returns
  without a fault for either value of \<open>fullCycle\<close>; afterwards the immediate context and
  every context of the pool are unprepared, still no context is prepared, and the engine
  is as it was, so the call can be repeated.
\<close>

theorem garbageCollect_safe:
  assumes "engine_ok s w" and "w_highest w \<le> length (mScriptFileContexts s)"
    and "list_all (\<lambda>prepared. \<not> prepared) (w_prepared w)"
  shows "\<exists>w'. garbageCollect fullCycle s w = Inr (s, w') \<and>
     is_unprepared w' (mImmediateContext s) \<and>
     list_all (is_unprepared w') (mScriptFileContexts s) \<and>
     list_all (\<lambda>prepared. \<not> prepared) (w_prepared w') \<and>
     engine_ok s w' \<and> w_highest w' = w_highest w"
proof -
  from garbageCollect_result [OF assms(1,2), of fullCycle] obtain w'
    where g: "garbageCollect fullCycle s w = Inr (s, w')"
    by blast
  note u = garbageCollect_unprepared [OF assms(1,2) g]
  have none: "list_all (\<lambda>prepared. \<not> prepared) (w_prepared w')"
    using assms(3) u(3,6) by (simp add: list_all_length)
  have ok': "engine_ok s w'"
    using assms(1) by (simp add: engine_ok_cong [OF u(3)])
  have un: "is_unprepared w' p" if "valid_ctx w' p" for p
    using that none by (auto simp add: is_unprepared_def valid_ctx_def list_all_length
        split: option.splits)
  have "list_all (is_unprepared w') (mScriptFileContexts s)"
    using ok' un by (simp add: engine_ok_def list_all_iff)
  moreover have "is_unprepared w' (mImmediateContext s)"
    using ok' un by (simp add: engine_ok_def)
  ultimately show ?thesis
    using g u(2) none ok' by simp
qed

theorem garbageCollect_safe_witness:
  "engine_ok (fst constructed) nested_world \<and>
   w_highest nested_world \<le> length (mScriptFileContexts (fst constructed)) \<and>
   list_all (\<lambda>prepared. \<not> prepared) (w_prepared nested_world) \<and>
   (\<exists>w'. garbageCollect False (fst constructed) nested_world = Inr (fst constructed, w') \<and>
      is_unprepared w' (Some 0) \<and> is_unprepared w' (Some 1) \<and> is_unprepared w' (Some 2)) \<and>
   (\<exists>w'. garbageCollect True (fst constructed) nested_world = Inr (fst constructed, w') \<and>
      is_unprepared w' (Some 0) \<and> is_unprepared w' (Some 1) \<and> is_unprepared w' (Some 2))"
proof -
  have c: "mImmediateContext (fst constructed) = Some 0"
    "mScriptFileContexts (fst constructed) = [Some 1, Some 2]"
    by (simp_all add: constructed_eq)
  from garbageCollect_safe [OF nested_ok, of False] garbageCollect_safe [OF nested_ok, of True]
  show ?thesis
    using nested_ok by (simp add: c) blast
qed

subsection \<open>C5: formatting and dispatch of a message\<close>

text \<open>
  C5. \<open>logMessage\<close> formats a message as \<open>section (row,col) text\<close>. In immediate mode
  the line goes to the error, warning or info log according to the severity and the
  engine is unchanged; in retained mode the line and a newline are appended to
  \<open>mLogMessages\<close> for an error or a warning, and nothing happens for an information
  message.
\<close>

theorem logMessage_format_and_dispatch:
  "logMessage msg s w =
     (case mLogMode s of
        LOGMODE_IMMEDIATE \<Rightarrow>
          (s, w\<lparr>w_log := w_log w @
                [(case msg_type msg of
                    asMSGTYPE_ERROR \<Rightarrow> LOG_ERROR
                  | asMSGTYPE_WARNING \<Rightarrow> LOG_WARNING
                  | asMSGTYPE_INFORMATION \<Rightarrow> LOG_INFO,
                  msg_section msg @ '' ('' @ toString (msg_row msg) @ '','' @
                  toString (msg_col msg) @ '') '' @ msg_message msg)]\<rparr>)
      | LOGMODE_RETAINED \<Rightarrow>
          (case msg_type msg of
             asMSGTYPE_INFORMATION \<Rightarrow> (s, w)
           | _ \<Rightarrow>
             (s\<lparr>mLogMessages := mLogMessages s @
                  (msg_section msg @ '' ('' @ toString (msg_row msg) @ '','' @
                   toString (msg_col msg) @ '') '' @ msg_message msg) @ [CHR 0x0A]\<rparr>, w)))"
  by (cases "mLogMode s"; cases "msg_type msg") (simp_all add: logMessage_def write_log_def)

subsection \<open>C6: the retained buffer\<close>

text \<open>
  C6. In retained mode, after any sequence of earlier messages, \<open>clearLogMessages\<close>
  followed by messages of which exactly one is an error and the others are information
  messages leaves \<open>mLogMessages\<close> holding exactly the formatted line of that error and
  a newline; and in every state an information message leaves \<open>mLogMessages\<close> as it was.
\<close>

theorem retained_buffer:
  assumes "mLogMode s = LOGMODE_RETAINED" and "msg_type err = asMSGTYPE_ERROR"
    and "list_all (\<lambda>m. msg_type m = asMSGTYPE_INFORMATION) (before @ after)"
    and "report earlier s w = (s1, w1)"
    and "report (before @ [err] @ after) (clearLogMessages s1) w1 = (s2, w2)"
  shows "mLogMessages s2 =
      msg_section err @ '' ('' @ toString (msg_row err) @ '','' @ toString (msg_col err) @
      '') '' @ msg_message err @ [CHR 0x0A] \<and>
    (\<forall>info s' w'. msg_type info = asMSGTYPE_INFORMATION \<longrightarrow>
       mLogMessages (fst (logMessage info s' w')) = mLogMessages s')"
proof -
  from report_frame [OF assms(4)] assms(1) have m: "mLogMode s1 = LOGMODE_RETAINED"
    by simp
  define c where "c = clearLogMessages s1"
  have c: "mLogMode c = LOGMODE_RETAINED" "mLogMessages c = []"
    using m by (simp_all add: c_def clearLogMessages_def)
  obtain wa where a: "report before c w1 = (c, wa)"
    using report_information [of before c w1] assms(3) by (cases "report before c w1") simp
  obtain sb wb where b: "logMessage err c wa = (sb, wb)"
    by (cases "logMessage err c wa")
  have sb: "mLogMessages sb =
      msg_section err @ '' ('' @ toString (msg_row err) @ '','' @ toString (msg_col err) @
      '') '' @ msg_message err @ [CHR 0x0A]"
    using b c assms(2) by (auto simp add: logMessage_def)
  have "fst (report after sb wb) = sb"
    using report_information [of after sb wb] assms(3) by simp
  moreover have "report (before @ [err] @ after) c w1 = report after sb wb"
    by (simp add: report_append a b messageCallback_def)
  ultimately have "s2 = sb"
    using assms(5) by (simp add: c_def)
  moreover have "mLogMessages (fst (logMessage info s' w')) = mLogMessages s'"
    if "msg_type info = asMSGTYPE_INFORMATION" for info s' w'
    using that by (simp add: logMessage_def Let_def)
  ultimately show ?thesis
    using sb by blast
qed

theorem retained_buffer_witness:
  "mLogMode retained_engine = LOGMODE_RETAINED \<and> msg_type syntax_error = asMSGTYPE_ERROR \<and>
   list_all (\<lambda>m. msg_type m = asMSGTYPE_INFORMATION) ([note_message] @ [note_message]) \<and>
   mLogMessages
     (fst (report ([note_message] @ [syntax_error] @ [note_message])
        (clearLogMessages (fst (report [syntax_error] retained_engine empty_world)))
        (snd (report [syntax_error] retained_engine empty_world)))) =
     ''f( (2,4) Expected expression value'' @ [CHR 0x0A] \<and>
   msg_type note_message = asMSGTYPE_INFORMATION \<and>
   mLogMessages (fst (logMessage note_message retained_engine empty_world)) =
     mLogMessages retained_engine"
proof -
  have m: "mLogMode retained_engine = LOGMODE_RETAINED"
    by (simp add: retained_engine_def constructed_eq)
  have e: "msg_type syntax_error = asMSGTYPE_ERROR"
    by (simp add: syntax_error_def)
  have i: "msg_type note_message = asMSGTYPE_INFORMATION"
    by (simp add: note_message_def)
  have l: "list_all (\<lambda>m. msg_type m = asMSGTYPE_INFORMATION) ([note_message] @ [note_message])"
    by (simp add: i)
  from retained_buffer [OF m e l surjective_pairing surjective_pairing,
      of "[syntax_error]" empty_world]
  have "mLogMessages
     (fst (report ([note_message] @ [syntax_error] @ [note_message])
        (clearLogMessages (fst (report [syntax_error] retained_engine empty_world)))
        (snd (report [syntax_error] retained_engine empty_world)))) =
     ''f( (2,4) Expected expression value'' @ [CHR 0x0A]"
    and "mLogMessages (fst (logMessage note_message retained_engine empty_world)) =
     mLogMessages retained_engine"
    using i by (simp_all add: syntax_error_def toString_examples)
  with m e l i show ?thesis
    by blast
qed

subsection \<open>C7: construction\<close>

text \<open>
  C7, in the form that holds of the code. When the library cannot create the engine the
  constructor throws \<open>Could not create AngelScript engine\<close>. Otherwise it returns, having
  set the user data and the two engine properties, installed the message callback,
  registered the array and string types and called \<open>CreateContext\<close> once for the
  immediate context and \<open>max_level\<close> times for the pool, in this order. It stores each
  pointer as the library returned it, null or not, leaves \<open>mLogMode\<close> as it found it and
  \<open>mLogMessages\<close> empty. When every one of these calls returned a context the engine is
  usable: all its pointers are non-null and name existing contexts, pairwise different
  and unprepared, and neither \<open>execute\<close> nor \<open>garbageCollect\<close> (with the highest nesting
  level within \<open>max_level\<close>) faults.
\<close>

theorem construction_outcomes:
  "(\<not> rt_asCreateScriptEngine rt \<longrightarrow>
      ScriptEngine_ctor max_level mode0 rt w =
        Inl (Exception ''Could not create AngelScript engine'')) \<and>
   (rt_asCreateScriptEngine rt \<longrightarrow>
      (\<exists>s w'. ScriptEngine_ctor max_level mode0 rt w = Inr (s, w') \<and>
         mAngelScriptEngine s = Some () \<and>
         length (mScriptFileContexts s) = max_level \<and>
         (mImmediateContext s \<noteq> None) = rt_CreateContext rt (requests w) \<and>
         (\<forall>level < max_level.
            (mScriptFileContexts s ! level \<noteq> None) =
              rt_CreateContext rt (requests w + 1 + level)) \<and>
         mLogMode s = mode0 \<and> mLogMessages s = [] \<and>
         w_calls w' = w_calls w @
           [Call_asCreateScriptEngine, Call_SetUserData,
            Call_SetEngineProperty asEP_USE_CHARACTER_LITERALS True,
            Call_SetEngineProperty asEP_ALLOW_UNSAFE_REFERENCES True,
            Call_SetMessageCallback, Call_registerArray, Call_registerStdString] @
           map Call_CreateContext (mImmediateContext s # mScriptFileContexts s) \<and>
         ((\<forall>k \<le> max_level. rt_CreateContext rt (requests w + k)) \<longrightarrow>
            engine_ok s w' \<and>
            is_unprepared w' (mImmediateContext s) \<and>
            list_all (is_unprepared w') (mScriptFileContexts s) \<and>
            distinct (mImmediateContext s # mScriptFileContexts s) \<and>
            (\<forall>rt' line. \<exists>b s'' w''. execute rt' line s w' = Inr (b, s'', w'')) \<and>
            (\<forall>fullCycle. w_highest w \<le> max_level \<longrightarrow>
               (\<exists>s'' w''. garbageCollect fullCycle s w' = Inr (s'', w''))))))"
proof (intro conjI impI)
  assume "\<not> rt_asCreateScriptEngine rt"
  then show "ScriptEngine_ctor max_level mode0 rt w =
        Inl (Exception ''Could not create AngelScript engine'')"
    by (simp add: ScriptEngine_ctor_def Let_def)
next
  assume rt: "rt_asCreateScriptEngine rt"
  from ctor_result [OF rt, of max_level mode0 w] obtain s w'
    where c: "ScriptEngine_ctor max_level mode0 rt w = Inr (s, w')"
    by blast
  note f = ctor_facts [OF c]
  note p = ctor_pool [OF c]
  have levels: "\<forall>level < max_level.
            (mScriptFileContexts s ! level \<noteq> None) =
              rt_CreateContext rt (requests w + 1 + level)"
    using p(3) by blast
  have usable: "engine_ok s w' \<and>
            is_unprepared w' (mImmediateContext s) \<and>
            list_all (is_unprepared w') (mScriptFileContexts s) \<and>
            distinct (mImmediateContext s # mScriptFileContexts s) \<and>
            (\<forall>rt' line. \<exists>b s'' w''. execute rt' line s w' = Inr (b, s'', w'')) \<and>
            (\<forall>fullCycle. w_highest w \<le> max_level \<longrightarrow>
               (\<exists>s'' w''. garbageCollect fullCycle s w' = Inr (s'', w'')))"
    if all: "\<forall>k \<le> max_level. rt_CreateContext rt (requests w + k)"
  proof -
    note a = ctor_all_created [OF c all]
    have ok: "engine_ok s w'"
      by (rule ctor_engine_ok [OF c all])
    have imm: "is_unprepared w' (mImmediateContext s)"
      using a by (simp add: is_unprepared_def nth_append del: replicate_Suc)
    have pool: "list_all (is_unprepared w') (mScriptFileContexts s)"
      using a by (auto simp add: is_unprepared_def list_all_iff nth_append nth_replicate
          simp del: upt_Suc replicate_Suc)
    have dist: "distinct (mImmediateContext s # mScriptFileContexts s)"
      using a by (auto simp add: distinct_map inj_on_def simp del: upt_Suc)
    have run: "\<forall>rt' line. \<exists>b s'' w''. execute rt' line s w' = Inr (b, s'', w'')"
      using execute_result [OF ok] by blast
    have gc: "\<exists>s'' w''. garbageCollect fullCycle s w' = Inr (s'', w'')"
      if "w_highest w \<le> max_level" for fullCycle
    proof -
      from that have "w_highest w' \<le> length (mScriptFileContexts s)"
        by (simp add: f(8) p(1))
      from garbageCollect_result [OF ok this, of fullCycle] show ?thesis
        by blast
    qed
    from ok imm pool dist run gc show ?thesis
      by blast
  qed
  from c f(2) p(1,2) levels f(5,4,7) usable
  show "\<exists>s w'. ScriptEngine_ctor max_level mode0 rt w = Inr (s, w') \<and>
         mAngelScriptEngine s = Some () \<and>
         length (mScriptFileContexts s) = max_level \<and>
         (mImmediateContext s \<noteq> None) = rt_CreateContext rt (requests w) \<and>
         (\<forall>level < max_level.
            (mScriptFileContexts s ! level \<noteq> None) =
              rt_CreateContext rt (requests w + 1 + level)) \<and>
         mLogMode s = mode0 \<and> mLogMessages s = [] \<and>
         w_calls w' = w_calls w @
           [Call_asCreateScriptEngine, Call_SetUserData,
            Call_SetEngineProperty asEP_USE_CHARACTER_LITERALS True,
            Call_SetEngineProperty asEP_ALLOW_UNSAFE_REFERENCES True,
            Call_SetMessageCallback, Call_registerArray, Call_registerStdString] @
           map Call_CreateContext (mImmediateContext s # mScriptFileContexts s) \<and>
         ((\<forall>k \<le> max_level. rt_CreateContext rt (requests w + k)) \<longrightarrow>
            engine_ok s w' \<and>
            is_unprepared w' (mImmediateContext s) \<and>
            list_all (is_unprepared w') (mScriptFileContexts s) \<and>
            distinct (mImmediateContext s # mScriptFileContexts s) \<and>
            (\<forall>rt' line. \<exists>b s'' w''. execute rt' line s w' = Inr (b, s'', w'')) \<and>
            (\<forall>fullCycle. w_highest w \<le> max_level \<longrightarrow>
               (\<exists>s'' w''. garbageCollect fullCycle s w' = Inr (s'', w''))))"
    by (intro exI [of _ s] exI [of _ w'] conjI) (assumption | blast)+
qed

theorem construction_outcomes_witness:
  "\<not> rt_asCreateScriptEngine no_runtime \<and>
   ScriptEngine_ctor 2 LOGMODE_RETAINED no_runtime empty_world =
     Inl (Exception ''Could not create AngelScript engine'') \<and>
   rt_asCreateScriptEngine ok_runtime \<and>
   rt_CreateContext ok_runtime (requests empty_world + 0) \<and>
   rt_CreateContext ok_runtime (requests empty_world + 1) \<and>
   rt_CreateContext ok_runtime (requests empty_world + 2) \<and>
   w_highest empty_world \<le> 2 \<and>
   (\<exists>s w'. ScriptEngine_ctor 2 LOGMODE_RETAINED ok_runtime empty_world = Inr (s, w') \<and>
      length (mScriptFileContexts s) = 2 \<and> engine_ok s w' \<and>
      (\<exists>b s'' w''. execute rejecting_runtime ''f('' s w' = Inr (b, s'', w'')) \<and>
      (\<exists>s'' w''. garbageCollect False s w' = Inr (s'', w'')))"
proof -
  have n: "\<not> rt_asCreateScriptEngine no_runtime"
    and o: "rt_asCreateScriptEngine ok_runtime"
    and a: "\<forall>k \<le> 2. rt_CreateContext ok_runtime (requests empty_world + k)"
    and h: "w_highest empty_world \<le> 2"
    by (simp_all add: no_runtime_def ok_runtime_def empty_world_def)
  from construction_outcomes [of no_runtime 2 LOGMODE_RETAINED empty_world] n
  have 1: "ScriptEngine_ctor 2 LOGMODE_RETAINED no_runtime empty_world =
     Inl (Exception ''Could not create AngelScript engine'')"
    by blast
  from construction_outcomes [of ok_runtime 2 LOGMODE_RETAINED empty_world,
      THEN conjunct2, THEN mp, OF o]
  obtain s w' where c: "ScriptEngine_ctor 2 LOGMODE_RETAINED ok_runtime empty_world = Inr (s, w')"
    and l: "length (mScriptFileContexts s) = 2"
    and u: "(\<forall>k \<le> 2. rt_CreateContext ok_runtime (requests empty_world + k)) \<longrightarrow>
            engine_ok s w' \<and>
            is_unprepared w' (mImmediateContext s) \<and>
            list_all (is_unprepared w') (mScriptFileContexts s) \<and>
            distinct (mImmediateContext s # mScriptFileContexts s) \<and>
            (\<forall>rt' line. \<exists>b s'' w''. execute rt' line s w' = Inr (b, s'', w'')) \<and>
            (\<forall>fullCycle. w_highest empty_world \<le> 2 \<longrightarrow>
               (\<exists>s'' w''. garbageCollect fullCycle s w' = Inr (s'', w'')))"
    by (elim conjE exE) (rule that)
  from u a h have "engine_ok s w'"
    and "\<exists>b s'' w''. execute rejecting_runtime ''f('' s w' = Inr (b, s'', w'')"
    and "\<exists>s'' w''. garbageCollect False s w' = Inr (s'', w'')"
    by blast+
  with c l
  have 2: "\<exists>s w'. ScriptEngine_ctor 2 LOGMODE_RETAINED ok_runtime empty_world = Inr (s, w') \<and>
      length (mScriptFileContexts s) = 2 \<and> engine_ok s w' \<and>
      (\<exists>b s'' w''. execute rejecting_runtime ''f('' s w' = Inr (b, s'', w'')) \<and>
      (\<exists>s'' w''. garbageCollect False s w' = Inr (s'', w''))"
    by blast
  have "rt_CreateContext ok_runtime (requests empty_world + 0)"
    "rt_CreateContext ok_runtime (requests empty_world + 1)"
    "rt_CreateContext ok_runtime (requests empty_world + 2)"
    by (simp_all add: ok_runtime_def)
  with n 1 o h 2 show ?thesis
    by blast
qed

text \<open>
  C7 as stated excludes an engine that is only partly usable. The constructor tests the
  engine pointer and nothing else: on a library that returns null from \<open>CreateContext\<close>
  it returns normally with null context pointers.
\<close>

theorem construction_partially_usable:
  "rt_asCreateScriptEngine contextless_runtime \<and>
   ScriptEngine_ctor 2 LOGMODE_RETAINED contextless_runtime empty_world = Inr unusable \<and>
   mImmediateContext (fst unusable) = None \<and>
   getScriptFileContext 0 (fst unusable) = None \<and>
   execute ok_runtime ''f()'' (fst unusable) (snd unusable) = Inl NullPointer \<and>
   garbageCollect True (fst unusable) (snd unusable) = Inl NullPointer"
  by (simp add: unusable_eq(1))
    (simp add: unusable_eq execute_def garbageCollect_def getScriptFileContext_def
      contextless_runtime_def ok_runtime_def Let_def)

subsection \<open>C8: the size of the pool\<close>

text \<open>
  C8. The constructor leaves exactly \<open>max_level\<close> contexts in the pool. On a constructed
  engine \<open>execute\<close>, \<open>garbageCollect\<close>, \<open>logMessage\<close>, \<open>setLogMode\<close> and
  \<open>clearLogMessages\<close> return with the pool unchanged (\<open>getScriptFileContext\<close> is \<open>const\<close>
  and returns a pointer only), and the destructor empties it.
\<close>

theorem pool_size_fixed:
  assumes "engine_ok s w"
  shows "(rt_asCreateScriptEngine rt0 \<longrightarrow>
      (\<exists>s0 w1. ScriptEngine_ctor max_level mode0 rt0 w0 = Inr (s0, w1) \<and>
         length (mScriptFileContexts s0) = max_level)) \<and>
    (\<exists>b s' w'. execute rt line s w = Inr (b, s', w') \<and>
       mScriptFileContexts s' = mScriptFileContexts s) \<and>
    (w_highest w \<le> length (mScriptFileContexts s) \<longrightarrow>
      (\<exists>s' w'. garbageCollect fullCycle s w = Inr (s', w') \<and>
         mScriptFileContexts s' = mScriptFileContexts s)) \<and>
    mScriptFileContexts (fst (logMessage msg s w)) = mScriptFileContexts s \<and>
    mScriptFileContexts (setLogMode mode s) = mScriptFileContexts s \<and>
    mScriptFileContexts (clearLogMessages s) = mScriptFileContexts s \<and>
    (length (mScriptFileContexts s) = max_level \<longrightarrow>
      (\<exists>s' w'. ScriptEngine_dtor max_level s w = Inr (s', w') \<and>
         mScriptFileContexts s' = []))"
proof (intro conjI impI)
  assume "rt_asCreateScriptEngine rt0"
  from ctor_result [OF this, of max_level mode0 w0] obtain s0 w1
    where c: "ScriptEngine_ctor max_level mode0 rt0 w0 = Inr (s0, w1)"
    by blast
  from ctor_pool(1) [OF c] c
  show "\<exists>s0 w1. ScriptEngine_ctor max_level mode0 rt0 w0 = Inr (s0, w1) \<and>
         length (mScriptFileContexts s0) = max_level"
    by blast
next
  from execute_result [OF assms, of rt line] obtain b s' w'
    where x: "execute rt line s w = Inr (b, s', w')"
    by blast
  from execute_frame(3) [OF assms x] x
  show "\<exists>b s' w'. execute rt line s w = Inr (b, s', w') \<and>
       mScriptFileContexts s' = mScriptFileContexts s"
    by blast
next
  assume "w_highest w \<le> length (mScriptFileContexts s)"
  from garbageCollect_result [OF assms this, of fullCycle]
  show "\<exists>s' w'. garbageCollect fullCycle s w = Inr (s', w') \<and>
         mScriptFileContexts s' = mScriptFileContexts s"
    by blast
next
  show "mScriptFileContexts (fst (logMessage msg s w)) = mScriptFileContexts s"
    using logMessage_frame(3) [OF surjective_pairing] .
next
  show "mScriptFileContexts (setLogMode mode s) = mScriptFileContexts s"
    by (simp add: setLogMode_def)
next
  show "mScriptFileContexts (clearLogMessages s) = mScriptFileContexts s"
    by (simp add: clearLogMessages_def)
next
  assume "length (mScriptFileContexts s) = max_level"
  then have "max_level \<le> length (mScriptFileContexts s)"
    by simp
  from dtor_result [OF this, of w]
  show "\<exists>s' w'. ScriptEngine_dtor max_level s w = Inr (s', w') \<and> mScriptFileContexts s' = []"
    by blast
qed

theorem pool_size_fixed_witness:
  "engine_ok (fst constructed) (snd constructed) \<and>
   rt_asCreateScriptEngine ok_runtime \<and>
   (\<exists>s0 w1. ScriptEngine_ctor 2 LOGMODE_RETAINED ok_runtime empty_world = Inr (s0, w1) \<and>
      length (mScriptFileContexts s0) = 2) \<and>
   (\<exists>b s' w'. execute rejecting_runtime ''f('' (fst constructed) (snd constructed) =
        Inr (b, s', w') \<and>
      mScriptFileContexts s' = [Some 1, Some 2]) \<and>
   w_highest (snd constructed) \<le> length (mScriptFileContexts (fst constructed)) \<and>
   (\<exists>s' w'. garbageCollect False (fst constructed) (snd constructed) = Inr (s', w') \<and>
      mScriptFileContexts s' = [Some 1, Some 2]) \<and>
   length (mScriptFileContexts (fst constructed)) = 2 \<and>
   (\<exists>s' w'. ScriptEngine_dtor 2 (fst constructed) (snd constructed) = Inr (s', w') \<and>
      mScriptFileContexts s' = [])"
  using pool_size_fixed [OF constructed_ok, of ok_runtime 2 LOGMODE_RETAINED empty_world
      rejecting_runtime "''f(''" False syntax_error LOGMODE_IMMEDIATE] constructed_ok
  by (simp add: ok_runtime_def constructed_eq)

subsection \<open>C9: failure before preparation\<close>

text \<open>
  C9. When the module cannot be obtained or \<open>CompileFunction\<close> returns a negative code,
  \<open>execute\<close> returns false, the immediate context pointer and the preparation state of
  every context are unchanged, and the only library calls made are \<open>GetModule\<close> and, when
  the module exists, \<open>CompileFunction\<close>: \<open>Prepare\<close> is not called.
\<close>

theorem execute_early_failure:
  assumes "engine_ok s w"
    and "\<not> rt_GetModule rt ''ExecuteImmediate'' \<or>
         fst (rt_CompileFunction rt line (wrappedLine line)) < 0"
  shows "\<exists>s' w'. execute rt line s w = Inr (False, s', w') \<and>
     mImmediateContext s' = mImmediateContext s \<and>
     w_prepared w' = w_prepared w \<and>
     w_calls w' = w_calls w @
       (if rt_GetModule rt ''ExecuteImmediate''
        then [Call_GetModule ''ExecuteImmediate'' asGM_ALWAYS_CREATE,
              Call_CompileFunction line (wrappedLine line)]
        else [Call_GetModule ''ExecuteImmediate'' asGM_ALWAYS_CREATE])"
proof -
  obtain e c where e: "mAngelScriptEngine s = Some e" and c: "mImmediateContext s = Some c"
    using assms(1) by (auto simp add: engine_ok_def valid_ctx_def split: option.splits)
  obtain r msgs where comp: "rt_CompileFunction rt line (wrappedLine line) = (r, msgs)"
    by (cases "rt_CompileFunction rt line (wrappedLine line)")
  obtain s2 w2 where rep:
    "report msgs s (api (Call_CompileFunction line (wrappedLine line))
       (api (Call_GetModule ''ExecuteImmediate'' asGM_ALWAYS_CREATE) w)) = (s2, w2)"
    by (cases "report msgs s (api (Call_CompileFunction line (wrappedLine line))
       (api (Call_GetModule ''ExecuteImmediate'' asGM_ALWAYS_CREATE) w))")
  note fr = report_frame [OF rep]
  show ?thesis
  proof (cases "rt_GetModule rt ''ExecuteImmediate''")
    case False
    then show ?thesis
      by (simp add: execute_def e Let_def api_def)
  next
    case True
    with assms(2) comp have "r < 0" by simp
    with True have "execute rt line s w = Inr (False, s2, w2)"
      by (simp add: execute_def e comp rep Let_def)
    with True fr show ?thesis
      by (simp add: api_def)
  qed
qed

theorem execute_early_failure_witness:
  "engine_ok (fst constructed) (snd constructed) \<and>
   fst (rt_CompileFunction rejecting_runtime ''f('' (wrappedLine ''f('')) < 0 \<and>
   (\<exists>s' w'. execute rejecting_runtime ''f('' (fst constructed) (snd constructed) =
        Inr (False, s', w') \<and>
      mImmediateContext s' = Some 0 \<and>
      w_prepared w' = [False, False, False])"
proof -
  have h: "fst (rt_CompileFunction rejecting_runtime ''f('' (wrappedLine ''f('')) < 0"
    by (simp add: rejecting_runtime_def)
  have c: "mImmediateContext (fst constructed) = Some 0"
    "w_prepared (snd constructed) = [False, False, False]"
    by (simp_all add: constructed_eq)
  from execute_early_failure [OF constructed_ok disjI2 [OF h]] obtain s' w'
    where "execute rejecting_runtime ''f('' (fst constructed) (snd constructed) =
        Inr (False, s', w')"
      and "mImmediateContext s' = mImmediateContext (fst constructed)"
      and "w_prepared w' = w_prepared (snd constructed)"
    by blast
  with c have "\<exists>s' w'. execute rejecting_runtime ''f('' (fst constructed) (snd constructed) =
        Inr (False, s', w') \<and>
      mImmediateContext s' = Some 0 \<and>
      w_prepared w' = [False, False, False]"
    by simp
  with constructed_ok h show ?thesis
    by simp
qed

subsection \<open>C10: immediate mode and the retained buffer\<close>

text \<open>
  C10. In immediate mode \<open>logMessage\<close> leaves \<open>mLogMessages\<close> unchanged, whatever the
  severity of the message.
\<close>

theorem immediate_mode_keeps_buffer:
  assumes "mLogMode s = LOGMODE_IMMEDIATE"
  shows "mLogMessages (fst (logMessage msg s w)) = mLogMessages s"
  using assms by (cases "msg_type msg") (simp_all add: logMessage_def)

theorem immediate_mode_keeps_buffer_witness:
  "mLogMode (setLogMode LOGMODE_IMMEDIATE retained_engine) = LOGMODE_IMMEDIATE \<and>
   mLogMessages (fst (logMessage syntax_error (setLogMode LOGMODE_IMMEDIATE retained_engine)
     empty_world)) = ''old (1,1) stale'' @ [CHR 0x0A]"
  using immediate_mode_keeps_buffer [of "setLogMode LOGMODE_IMMEDIATE retained_engine"
      syntax_error empty_world]
  by (simp add: setLogMode_def retained_engine_def)

end
